theory Spec2Isabelle
  imports Complex_Main
begin

section \<open>Text of the log file\<close>

text \<open>
  The log file is opened in text mode and decoded as UTF-8. A character of the model is a
  code point below U+0100 (the type \<open>char\<close>); it takes one byte in the file below U+0080
  and two from there on. The character classes are those of Python's \<open>re\<close> module on
  \<open>str\<close> patterns, which follow the Unicode database, and of \<open>str.strip\<close>.
\<close>

definition code :: "char \<Rightarrow> nat" where
  "code c = of_char c"

definition btw :: "char \<Rightarrow> char \<Rightarrow> char \<Rightarrow> bool" where
  "btw lo hi c = (code lo \<le> code c \<and> code c \<le> code hi)"

definition is_digit :: "char \<Rightarrow> bool" where
  \<comment> \<open>\<open>\d\<close>: the decimal digits; there is none from U+0080 to U+00FF\<close>
  "is_digit c = btw CHR ''0'' CHR ''9'' c"

definition latin1_alnum :: "char \<Rightarrow> bool" where
  \<comment> \<open>the letters and numbers from U+0080 to U+00FF: \<open>str.isalnum\<close> there\<close>
  "latin1_alnum c =
     (code c = 0xAA \<or> code c = 0xB2 \<or> code c = 0xB3 \<or> code c = 0xB5 \<or> code c = 0xB9 \<or>
      code c = 0xBA \<or> (0xBC \<le> code c \<and> code c \<le> 0xBE) \<or> (0xC0 \<le> code c \<and> code c \<le> 0xD6) \<or>
      (0xD8 \<le> code c \<and> code c \<le> 0xF6) \<or> (0xF8 \<le> code c \<and> code c \<le> 0xFF))"

definition is_word :: "char \<Rightarrow> bool" where
  \<comment> \<open>\<open>\w\<close>, which is also \<open>[\w_]\<close>: alphanumeric or underscore\<close>
  "is_word c = (btw CHR ''a'' CHR ''z'' c \<or> btw CHR ''A'' CHR ''Z'' c \<or> is_digit c \<or> c = CHR ''_'' \<or>
                latin1_alnum c)"

definition is_space :: "char \<Rightarrow> bool" where
  \<comment> \<open>\<open>\s\<close> and the characters \<open>str.strip\<close> removes: codes 9 to 13, 28 to 32, 133 and 160\<close>
  "is_space c = ((9 \<le> code c \<and> code c \<le> 13) \<or> (28 \<le> code c \<and> code c \<le> 32) \<or>
                 code c = 133 \<or> code c = 160)"

definition is_ts_char :: "char \<Rightarrow> bool" where
  \<comment> \<open>\<open>[\d\-\: \.]\<close>\<close>
  "is_ts_char c = (is_digit c \<or> c = CHR ''-'' \<or> c = CHR '':'' \<or> c = CHR '' '' \<or> c = CHR ''.'')"

definition is_ip_char :: "char \<Rightarrow> bool" where
  \<comment> \<open>\<open>[\d\.]\<close>\<close>
  "is_ip_char c = (is_digit c \<or> c = CHR ''.'')"

definition is_dot :: "char \<Rightarrow> bool" where
  \<comment> \<open>\<open>.\<close> without DOTALL: anything but a newline\<close>
  "is_dot c = (c \<noteq> CHR 0x0A)"

definition strip :: "string \<Rightarrow> string" where
  \<comment> \<open>\<open>str.strip()\<close>\<close>
  "strip s = rev (dropWhile is_space (rev (dropWhile is_space s)))"

definition digit_val :: "char \<Rightarrow> int" where
  "digit_val c = int (code c) - 48"

definition digits_value :: "string \<Rightarrow> int" where
  \<comment> \<open>the number a string of decimal digits denotes\<close>
  "digits_value s = foldl (\<lambda>a c. 10 * a + digit_val c) 0 s"

definition py_int :: "string \<Rightarrow> int option" where
  \<comment> \<open>\<open>int(s)\<close> on a string of decimal digits: ValueError (\<open>None\<close>) beyond 4300 digits,
      the limit of the interpreter on the conversion of strings to integers\<close>
  "py_int s = (if 4300 < length s then None else Some (digits_value s))"


section \<open>Regular expression matching\<close>

text \<open>
  The pattern of \<open>parse_log_line\<close> is a sequence of literal characters and of greedy
  repetitions \<open>C+\<close> of a character class, some of them named groups. \<open>re.match\<close>
  anchors the pattern at the start of the string only, tries the longest repetition
  first and backtracks to shorter ones when the rest of the pattern fails.
\<close>

datatype item = Lit char | Plus "char \<Rightarrow> bool" "string option"

type_synonym groups = "string \<rightharpoonup> string"

fun capture :: "string option \<Rightarrow> string \<Rightarrow> groups \<Rightarrow> groups" where
  "capture None v g = g"
| "capture (Some k) v g = g(k \<mapsto> v)"

fun try_lens :: "(nat \<Rightarrow> 'a option) \<Rightarrow> nat \<Rightarrow> 'a option" where
  \<comment> \<open>the first length, from \<open>n\<close> down to 1, at which \<open>f\<close> succeeds\<close>
  "try_lens f 0 = None"
| "try_lens f (Suc n) = (case f (Suc n) of Some r \<Rightarrow> Some r | None \<Rightarrow> try_lens f n)"

fun match_items :: "item list \<Rightarrow> string \<Rightarrow> groups \<Rightarrow> groups option" where
  "match_items [] s g = Some g"
| "match_items (Lit c # its) s g =
     (case s of [] \<Rightarrow> None | x # xs \<Rightarrow> if x = c then match_items its xs g else None)"
| "match_items (Plus P k # its) s g =
     try_lens (\<lambda>n. match_items its (drop n s) (capture k (take n s) g))
       (length (takeWhile P s))"

definition lits :: "string \<Rightarrow> item list" where
  "lits s = map Lit s"

definition pattern :: "item list" where
  "pattern =
     [Plus is_ts_char (Some ''timestamp'')] @ lits '' | '' @
     [Plus is_word (Some ''level''), Plus is_space None] @ lits ''| '' @
     [Plus is_word (Some ''service''), Plus is_space None] @ lits ''| '' @
     lits ''UserID: '' @ [Plus is_word (Some ''user_id'')] @ lits '' | '' @
     lits ''IP: '' @ [Plus is_ip_char (Some ''ip_address''), Plus is_space None] @ lits ''| '' @
     lits ''ResponseTime: '' @ [Plus is_digit (Some ''response_time'')] @ lits ''ms | '' @
     lits ''Message: '' @ [Plus is_dot (Some ''message'')]"

definition re_match :: "item list \<Rightarrow> string \<Rightarrow> groups option" where
  "re_match p s = match_items p s Map.empty"


section \<open>Timestamps\<close>

record datetime =
  year :: nat
  month :: nat
  day :: nat
  hour :: nat
  minute :: nat
  second :: nat
  microsecond :: nat

text \<open>
  \<open>datetime.strptime(s, '%Y-%m-%d %H:%M:%S.%f')\<close> of the standard library. It matches
  \<open>s\<close> against the regular expression
  \<^verbatim>\<open>(?P<Y>\d\d\d\d)-(?P<m>1[0-2]|0[1-9]|[1-9])-(?P<d>3[0-1]|[1-2]\d|0[1-9]|[1-9]| [1-9])\s+\<close>
  \<^verbatim>\<open>(?P<H>2[0-3]|[0-1]\d|\d):(?P<M>[0-5]\d|\d):(?P<S>6[0-1]|[0-5]\d|\d)\.(?P<f>[0-9]{1,6})\<close>
  takes the first match, raises ValueError when there is none or when characters remain
  after it, and builds the datetime, which raises ValueError on a date or time out of
  range. Each field below lists its matches in the order the expression tries them. The
  fields have six digits at most, far below the limit of \<open>int\<close>.
\<close>

type_synonym 'a matches = "('a \<times> string) list"

fun one :: "(char \<Rightarrow> bool) \<Rightarrow> string \<Rightarrow> string matches" where
  "one P (a # s) = (if P a then [([a], s)] else [])"
| "one P [] = []"

fun two :: "(char \<Rightarrow> bool) \<Rightarrow> (char \<Rightarrow> bool) \<Rightarrow> string \<Rightarrow> string matches" where
  "two P Q (a # b # s) = (if P a \<and> Q b then [([a, b], s)] else [])"
| "two P Q s = []"

definition lit :: "char \<Rightarrow> string \<Rightarrow> unit matches" where
  "lit c s = (case s of [] \<Rightarrow> [] | a # r \<Rightarrow> if a = c then [((), r)] else [])"

definition longest_first :: "nat \<Rightarrow> string \<Rightarrow> string matches" where
  \<comment> \<open>the prefixes of length \<open>n\<close> down to 1\<close>
  "longest_first n s = map (\<lambda>k. (take k s, drop k s)) (rev [1..<Suc n])"

definition rx_Y :: "string \<Rightarrow> string matches" where
  "rx_Y s = (if 4 \<le> length s \<and> list_all is_digit (take 4 s) then [(take 4 s, drop 4 s)] else [])"

definition rx_m :: "string \<Rightarrow> string matches" where
  "rx_m s = two ((=) CHR ''1'') (btw CHR ''0'' CHR ''2'') s @
            two ((=) CHR ''0'') (btw CHR ''1'' CHR ''9'') s @
            one (btw CHR ''1'' CHR ''9'') s"

definition rx_d :: "string \<Rightarrow> string matches" where
  "rx_d s = two ((=) CHR ''3'') (btw CHR ''0'' CHR ''1'') s @
            two (btw CHR ''1'' CHR ''2'') is_digit s @
            two ((=) CHR ''0'') (btw CHR ''1'' CHR ''9'') s @
            one (btw CHR ''1'' CHR ''9'') s @
            two ((=) CHR '' '') (btw CHR ''1'' CHR ''9'') s"

definition rx_H :: "string \<Rightarrow> string matches" where
  "rx_H s = two ((=) CHR ''2'') (btw CHR ''0'' CHR ''3'') s @
            two (btw CHR ''0'' CHR ''1'') is_digit s @
            one is_digit s"

definition rx_M :: "string \<Rightarrow> string matches" where
  "rx_M s = two (btw CHR ''0'' CHR ''5'') is_digit s @ one is_digit s"

definition rx_S :: "string \<Rightarrow> string matches" where
  "rx_S s = two ((=) CHR ''6'') (btw CHR ''0'' CHR ''1'') s @
            two (btw CHR ''0'' CHR ''5'') is_digit s @
            one is_digit s"

definition rx_ws :: "string \<Rightarrow> string matches" where
  \<comment> \<open>\<open>\s+\<close>\<close>
  "rx_ws s = longest_first (length (takeWhile is_space s)) s"

definition rx_f :: "string \<Rightarrow> string matches" where
  \<comment> \<open>\<open>[0-9]{1,6}\<close>\<close>
  "rx_f s = longest_first (min 6 (length (takeWhile is_digit s))) s"

definition strptime_matches :: "string \<Rightarrow> (string \<times> string \<times> string \<times> string \<times> string \<times> string \<times> string) matches" where
  "strptime_matches s =
     [((Y, m, d, H, M, S, f), r13).
        (Y, r1) \<leftarrow> rx_Y s, (u1, r2) \<leftarrow> lit CHR ''-'' r1,
        (m, r3) \<leftarrow> rx_m r2, (u2, r4) \<leftarrow> lit CHR ''-'' r3,
        (d, r5) \<leftarrow> rx_d r4, (u3, r6) \<leftarrow> rx_ws r5,
        (H, r7) \<leftarrow> rx_H r6, (u4, r8) \<leftarrow> lit CHR '':'' r7,
        (M, r9) \<leftarrow> rx_M r8, (u5, r10) \<leftarrow> lit CHR '':'' r9,
        (S, r11) \<leftarrow> rx_S r10, (u6, r12) \<leftarrow> lit CHR ''.'' r11,
        (f, r13) \<leftarrow> rx_f r12]"

definition is_leap :: "nat \<Rightarrow> bool" where
  "is_leap y = (y mod 4 = 0 \<and> (y mod 100 \<noteq> 0 \<or> y mod 400 = 0))"

definition days_in_month :: "nat \<Rightarrow> nat \<Rightarrow> nat" where
  "days_in_month y m =
     (if m = 2 then (if is_leap y then 29 else 28)
      else if m = 4 \<or> m = 6 \<or> m = 9 \<or> m = 11 then 30 else 31)"

definition strptime :: "string \<Rightarrow> datetime option" where
  \<comment> \<open>\<open>None\<close> stands for ValueError\<close>
  "strptime s =
     (case strptime_matches s of
        [] \<Rightarrow> None
      | ((Y, m, d, H, M, S, f), rest) # _ \<Rightarrow>
          if rest \<noteq> [] then None
          else
            let y = nat (digits_value Y); mo = nat (digits_value m);
                dy = nat (digits_value (dropWhile is_space d));
                sc = nat (digits_value S);
                us = nat (digits_value (f @ replicate (6 - length f) CHR ''0''))
            in if y < 1 \<or> dy < 1 \<or> days_in_month y mo < dy \<or> 59 < sc then None
               else Some \<lparr>year = y, month = mo, day = dy, hour = nat (digits_value H),
                           minute = nat (digits_value M), second = sc, microsecond = us\<rparr>)"


section \<open>The ingestion script: \<open>parse_log_line\<close>\<close>

datatype error = ValueError | TypeError | StoreError | FileNotFoundError | UnicodeDecodeError

record log_entry =
  timestamp :: datetime
  level :: string
  service :: string
  user_id :: string
  ip_address :: string
  response_time :: int
  message :: string
  ingestion_time :: datetime

text \<open>
  \<open>parse_log_line\<close> returns the dictionary of the groups with the timestamp converted by
  \<open>strptime\<close>, the response time by \<open>int\<close>, and the reading \<open>now\<close> of the clock
  added; it returns \<open>None\<close> when the pattern does not match. The ValueError of
  \<open>strptime\<close> or of \<open>int\<close> is not caught in \<open>parse_log_line\<close>: it leaves the function
  as an error.
\<close>

definition parse_log_line :: "datetime \<Rightarrow> string \<Rightarrow> error + log_entry option" where
  "parse_log_line now line =
     (case re_match pattern line of
        None \<Rightarrow> Inr None
      | Some data \<Rightarrow>
          (case (data ''timestamp'', data ''level'', data ''service'', data ''user_id'',
                 data ''ip_address'', data ''response_time'', data ''message'') of
             (Some ts, Some lv, Some sv, Some uid, Some ip, Some rt, Some msg) \<Rightarrow>
               (case strptime ts of
                  None \<Rightarrow> Inl ValueError
                | Some t \<Rightarrow>
                    (case py_int rt of
                       None \<Rightarrow> Inl ValueError
                     | Some n \<Rightarrow>
                         Inr (Some \<lparr>timestamp = t, level = lv, service = sv, user_id = uid,
                                    ip_address = ip, response_time = n, message = msg,
                                    ingestion_time = now\<rparr>)))
           | _ \<Rightarrow> Inl TypeError))"


section \<open>The ingestion script: \<open>ingest_logs\<close>\<close>

text \<open>
  \<open>readlines\<close> of a file opened in text mode: the text is cut after every line
  terminator (\<open>\n\<close>, \<open>\r\n\<close> or \<open>\r\<close>, each read as \<open>\n\<close>); what follows the last
  terminator, when not empty, is the last line and has no terminator.
\<close>

fun readlines_from :: "string \<Rightarrow> string \<Rightarrow> string list" where
  "readlines_from cur [] = (if cur = [] then [] else [cur])"
| "readlines_from cur (c # cs) =
     (if c = CHR 0x0A then (cur @ [CHR 0x0A]) # readlines_from [] cs
      else if c = CHR 0x0D then
        (case cs of
           [] \<Rightarrow> [cur @ [CHR 0x0A]]
         | d # ds \<Rightarrow>
             if d = CHR 0x0A then (cur @ [CHR 0x0A]) # readlines_from [] ds
             else (cur @ [CHR 0x0A]) # readlines_from [] cs)
      else readlines_from (cur @ [c]) cs)"

definition readlines :: "string \<Rightarrow> string list" where
  "readlines s = readlines_from [] s"

text \<open>
  The loop over the lines of a cycle. An error raised by \<open>parse_log_line\<close> leaves the
  loop; a line that is empty once stripped, or that the pattern rejects, is skipped.
\<close>

fun parse_lines :: "datetime \<Rightarrow> string list \<Rightarrow> error + log_entry list" where
  "parse_lines now [] = Inr []"
| "parse_lines now (l # ls) =
     (let line = strip l in
      if line \<noteq> [] then
        (case parse_log_line now line of
           Inl e \<Rightarrow> Inl e
         | Inr None \<Rightarrow> parse_lines now ls
         | Inr (Some parsed_log) \<Rightarrow>
             (case parse_lines now ls of
                Inl e \<Rightarrow> Inl e
              | Inr parsed_logs \<Rightarrow> Inr (parsed_log # parsed_logs)))
      else parse_lines now ls)"

text \<open>
  The store is outside the program. What \<open>insert_many\<close> does in a cycle is an input of
  the model: it succeeds, or it raises after the first \<open>k\<close> documents were written.
\<close>

datatype write_result = WriteOk | WriteFails nat

definition insert_many :: "write_result \<Rightarrow> log_entry list \<Rightarrow> log_entry list \<Rightarrow> log_entry list \<times> error option" where
  "insert_many w docs coll =
     (case w of
        WriteOk \<Rightarrow> (coll @ docs, None)
      | WriteFails k \<Rightarrow> (coll @ take k docs, Some StoreError))"

record log_ingestion =
  last_position :: nat
  collection :: "log_entry list"

datatype outcome =
    Ingested nat
  | Quiet
  | LogFileNotFound
  | ErrorIngesting error

text \<open>
  Offsets of \<open>seek\<close> and \<open>tell\<close> count bytes. Reading from an offset inside a character
  meets a byte that starts no character and raises UnicodeDecodeError; reading from an
  offset beyond the end of the file gives nothing.
\<close>

definition utf8_len :: "char \<Rightarrow> nat" where
  "utf8_len c = (if code c < 128 then 1 else 2)"

definition size_bytes :: "string \<Rightarrow> nat" where
  "size_bytes s = sum_list (map utf8_len s)"

fun read_from :: "nat \<Rightarrow> string \<Rightarrow> error + string" where
  "read_from n [] = Inr []"
| "read_from n (c # cs) =
     (if n = 0 then Inr (c # cs)
      else if n < utf8_len c then Inl UnicodeDecodeError
      else read_from (n - utf8_len c) cs)"

text \<open>
  One cycle. \<open>file\<close> is the content of the log file, \<open>None\<close> when there is no such
  file. \<open>seek\<close> may go beyond the end of the file; nothing is read then and \<open>tell\<close>
  returns the position sought. Every exception leaves the \<open>with\<close> block before
  \<open>last_position\<close> is assigned.
\<close>

definition ingest_logs :: "datetime \<Rightarrow> write_result \<Rightarrow> string option \<Rightarrow> log_ingestion \<Rightarrow> outcome \<times> log_ingestion" where
  "ingest_logs now w file self =
     (case file of
        None \<Rightarrow> (LogFileNotFound, self)
      | Some content \<Rightarrow>
          (case read_from (last_position self) content of
             Inl e \<Rightarrow> (ErrorIngesting e, self)
           | Inr text \<Rightarrow>
               let lines = readlines text;
                   tell = max (last_position self) (size_bytes content)
               in if lines \<noteq> [] then
                    (case parse_lines now lines of
                       Inl e \<Rightarrow> (ErrorIngesting e, self)
                     | Inr parsed_logs \<Rightarrow>
                         if parsed_logs \<noteq> [] then
                           (case insert_many w parsed_logs (collection self) of
                              (coll, Some e) \<Rightarrow> (ErrorIngesting e, self\<lparr>collection := coll\<rparr>)
                            | (coll, None) \<Rightarrow>
                                (Ingested (length parsed_logs),
                                 self\<lparr>collection := coll, last_position := tell\<rparr>))
                         else (Quiet, self\<lparr>last_position := tell\<rparr>))
                  else (Quiet, self\<lparr>last_position := tell\<rparr>)))"


section \<open>Floating point numbers\<close>

text \<open>
  The numbers of the analytics script are binary64 floating point numbers. A finite one is
  modelled by the real number it denotes, and each arithmetic operation by the exact
  operation followed by \<open>fl\<close>, the rounding to the nearest binary64 number, a tie going to
  the even significand. Overflow is not modelled: the store holds integers of 64 bits, so
  the quantities of the script stay far below \<open>2 ^ 1024\<close>. NaN is the value \<open>None\<close>
  where it can arise.
\<close>

definition rhe :: "real \<Rightarrow> int" where
  \<comment> \<open>the nearest integer, a tie to the even one\<close>
  "rhe y =
     (let f = \<lfloor>y\<rfloor>; r = y - of_int f
      in if r < 1 / 2 then f else if 1 / 2 < r then f + 1 else if even f then f else f + 1)"

definition fl :: "real \<Rightarrow> real" where
  \<comment> \<open>53 bits of significand, the exponent of the last bit at least \<open>- 1074\<close>\<close>
  "fl x =
     (if x = 0 then 0
      else let e = max (\<lfloor>log 2 \<bar>x\<bar>\<rfloor> - 52) (- 1074)
           in of_int (rhe (x / 2 powr of_int e)) * 2 powr of_int e)"

definition py_round2 :: "real \<Rightarrow> real" where
  \<comment> \<open>\<open>round(x, 2)\<close> on a \<open>float\<close> of Python: the nearest hundredth of the exact value of
      \<open>x\<close>, a tie to the even one, then the nearest binary64 number\<close>
  "py_round2 x = fl (of_int (rhe (x * 100)) / 100)"


section \<open>The analytics script\<close>

text \<open>
  A document as the processor reads it. The query selects on the timestamp, so every
  document of a result has one, and a result with a document is a data frame that is not
  empty. Any other key may be missing from a document, or hold a null. A column of the data
  frame exists when some document has the key, whatever it holds.
\<close>

datatype 'a field = Absent | Null | Value 'a

record document =
  doc_timestamp :: datetime
  doc_level :: "string field"
  doc_service :: "string field"
  doc_response_time :: "int field"
  doc_message :: "string field"

type_synonym dataframe = "document list"

definition get_logs_dataframe :: "document list option \<Rightarrow> dataframe" where
  \<comment> \<open>the argument is the result of \<open>collection.find\<close>, \<open>None\<close> when it raises\<close>
  "get_logs_dataframe found = (case found of None \<Rightarrow> [] | Some logs \<Rightarrow> logs)"

definition column :: "(document \<Rightarrow> 'a field) \<Rightarrow> dataframe \<Rightarrow> 'a list" where
  \<comment> \<open>the values of a column that are not null\<close>
  "column f df = concat (map (\<lambda>d. case f d of Value v \<Rightarrow> [v] | _ \<Rightarrow> []) df)"

definition has_column :: "(document \<Rightarrow> 'a field) \<Rightarrow> dataframe \<Rightarrow> bool" where
  \<comment> \<open>\<open>'key' in df.columns\<close>\<close>
  "has_column f df = list_ex (\<lambda>d. f d \<noteq> Absent) df"

text \<open>
  The operations of pandas and numpy on a column. Their code is not part of the repository,
  and what they return in the last bit depends on the order in which the installed library
  adds the values, so the script is modelled over any such operations: \<open>series_mean\<close> is
  \<open>Series.mean()\<close> and \<open>series_std\<close> is \<open>Series.std()\<close>, both on the values of the column
  that are not null, with \<open>None\<close> for NaN; \<open>np_round2\<close> is \<open>round(x, 2)\<close> on the number type
  these return.
\<close>

record numerics =
  series_mean :: "int list \<Rightarrow> real"
  series_std :: "int list \<Rightarrow> real option"
  np_round2 :: "real \<Rightarrow> real"

definition value_counts :: "string list \<Rightarrow> (string \<rightharpoonup> nat)" where
  "value_counts xs = (\<lambda>k. if k \<in> set xs then Some (count_list xs k) else None)"

record stats =
  total_logs :: nat
  log_levels :: "string \<rightharpoonup> nat"
  services :: "string \<rightharpoonup> nat"
  avg_response_time :: "real option"
  max_response_time :: "int option"
  min_response_time :: "int option"
  error_count :: nat
  stats_timestamp :: datetime

definition calculate_statistics ::
  "numerics \<Rightarrow> datetime \<Rightarrow> document list option \<Rightarrow> stats option" where
  "calculate_statistics num now found =
     (let df = get_logs_dataframe found in
      if df = [] then None
      else
        let rts = column doc_response_time df in
        Some \<lparr>total_logs = length df,
              log_levels = value_counts (column doc_level df),
              services = value_counts (column doc_service df),
              avg_response_time = (if rts \<noteq> [] then Some (series_mean num rts) else None),
              max_response_time = (if rts \<noteq> [] then Some (Max (set rts)) else None),
              min_response_time = (if rts \<noteq> [] then Some (Min (set rts)) else None),
              error_count = length (filter (\<lambda>d. doc_level d \<in> {Value ''ERROR'', Value ''CRITICAL''}) df),
              stats_timestamp = now\<rparr>)"

datatype anomaly =
    HighResponseTime nat real real
  | HighErrorRate real nat

fun anomaly_type :: "anomaly \<Rightarrow> string" where
  "anomaly_type (HighResponseTime c th av) = ''High Response Time''"
| "anomaly_type (HighErrorRate r c) = ''High Error Rate''"

fun anomaly_count :: "anomaly \<Rightarrow> nat" where
  "anomaly_count (HighResponseTime c th av) = c"
| "anomaly_count (HighErrorRate r c) = c"

definition threshold_of :: "numerics \<Rightarrow> int list \<Rightarrow> real option" where
  \<comment> \<open>\<open>avg_response + (2 * std_response)\<close>, NaN when the deviation is; a deviation of zero
      is replaced by the integer 0, which gives the same sum\<close>
  "threshold_of num rts =
     (case series_std num rts of
        None \<Rightarrow> None
      | Some sd \<Rightarrow> Some (fl (series_mean num rts + fl (2 * sd))))"

definition slow_requests :: "numerics \<Rightarrow> int list \<Rightarrow> int list" where
  \<comment> \<open>the rows strictly above the threshold, compared as floating point numbers; no row
      is above NaN\<close>
  "slow_requests num rts =
     (case threshold_of num rts of
        None \<Rightarrow> []
      | Some th \<Rightarrow> filter (\<lambda>v. th < fl (real_of_int v)) rts)"

definition response_time_rule :: "numerics \<Rightarrow> dataframe \<Rightarrow> anomaly list" where
  "response_time_rule num df =
     (let rts = column doc_response_time df in
      if rts \<noteq> [] then
        (case threshold_of num rts of
           None \<Rightarrow> []
         | Some th \<Rightarrow>
             if 0 < length (slow_requests num rts)
             then [HighResponseTime (length (slow_requests num rts)) (np_round2 num th)
                     (np_round2 num (series_mean num (slow_requests num rts)))]
             else [])
      else [])"

definition error_rows :: "dataframe \<Rightarrow> dataframe" where
  \<comment> \<open>\<open>df[df['level'] == 'ERROR']\<close>\<close>
  "error_rows df = filter (\<lambda>d. doc_level d = Value ''ERROR'') df"

definition error_rate :: "dataframe \<Rightarrow> real" where
  \<comment> \<open>\<open>(len(df[df['level'] == 'ERROR']) / len(df)) * 100\<close>: the quotient of two integers,
      rounded once, then a product of floating point numbers; the expression is evaluated
      on a window of at least 10 rows\<close>
  "error_rate df = fl (fl (real (length (error_rows df)) / real (length df)) * 100)"

definition error_rate_rule :: "dataframe \<Rightarrow> anomaly list" where
  "error_rate_rule df =
     (if has_column doc_level df then
        (if 15 < error_rate df
         then [HighErrorRate (py_round2 (error_rate df)) (length (error_rows df))]
         else [])
      else [])"

definition detect_anomalies :: "numerics \<Rightarrow> document list option \<Rightarrow> anomaly list" where
  "detect_anomalies num found =
     (let df = get_logs_dataframe found in
      if df = [] \<or> length df < 10 \<or> \<not> has_column doc_response_time df then []
      else response_time_rule num df @ error_rate_rule df)"


section \<open>Sample inputs\<close>

definition now0 :: datetime where
  "now0 = \<lparr>year = 2024, month = 1, day = 15, hour = 10, minute = 31, second = 0, microsecond = 0\<rparr>"
definition t0 :: datetime where
  "t0 = \<lparr>year = 2024, month = 1, day = 15, hour = 10, minute = 30, second = 45, microsecond = 123000\<rparr>"
definition line_ok :: string where
  "line_ok = ''2024-01-15 10:30:45.123 | INFO | auth | UserID: u1 | IP: 10.0.0.1 | ResponseTime: 42ms | Message: ok''"
definition entry_ok :: log_entry where
  "entry_ok = \<lparr>timestamp = t0, level = ''INFO'', service = ''auth'', user_id = ''u1'',
      ip_address = ''10.0.0.1'', response_time = 42, message = ''ok'', ingestion_time = now0\<rparr>"
definition line_trace :: string where
  "line_trace = ''2024-01-15 10:30:45.123 | TRACE | auth | UserID: u1 | IP: 10.0.0.1 | ResponseTime: 42ms | Message: ok''"
definition entry_trace :: log_entry where
  "entry_trace = \<lparr>timestamp = t0, level = ''TRACE'', service = ''auth'', user_id = ''u1'',
      ip_address = ''10.0.0.1'', response_time = 42, message = ''ok'', ingestion_time = now0\<rparr>"
definition line_bad_ts :: string where
  "line_bad_ts = ''2024-13-45 10:30:45.123 | INFO | auth | UserID: u1 | IP: 10.0.0.1 | ResponseTime: 42ms | Message: ok''"
definition line_partial :: string where
  "line_partial = ''2024-01-15 10:30:45.123 | ERROR | db | UserID: u2 | IP: 10.0.0.2 | ResponseTime: 5000ms | Message: Database conn''"
definition entry_partial :: log_entry where
  "entry_partial = \<lparr>timestamp = t0, level = ''ERROR'', service = ''db'', user_id = ''u2'',
      ip_address = ''10.0.0.2'', response_time = 5000, message = ''Database conn'', ingestion_time = now0\<rparr>"
definition file_ok :: string where
  "file_ok = line_ok @ [CHR 0x0A]"
definition file_bad :: string where
  "file_bad = line_bad_ts @ [CHR 0x0A] @ line_ok @ [CHR 0x0A]"
definition file_partial :: string where
  "file_partial = line_ok @ [CHR 0x0A] @ line_partial"
definition fresh :: log_ingestion where
  "fresh = \<lparr>last_position = 0, collection = []\<rparr>"
definition stale :: log_ingestion where
  "stale = \<lparr>last_position = 500, collection = []\<rparr>"

definition mk_doc :: "string \<Rightarrow> int \<Rightarrow> document" where
  "mk_doc lv rt =
     \<lparr>doc_timestamp = t0, doc_level = Value lv, doc_service = Value ''auth'',
      doc_response_time = Value rt, doc_message = Value ''ok''\<rparr>"
definition window_slow :: dataframe where
  "window_slow = replicate 9 (mk_doc ''INFO'' 100) @ [mk_doc ''INFO'' 5000]"
definition window_errors :: dataframe where
  "window_errors = replicate 4 (mk_doc ''ERROR'' 100) @ replicate 16 (mk_doc ''INFO'' 100)"
definition window_tie :: dataframe where
  "window_tie = replicate 5 (mk_doc ''ERROR'' 100) @ replicate 27 (mk_doc ''INFO'' 100)"
definition window_no_rt :: dataframe where
  \<comment> \<open>ten documents without the key \<open>response_time\<close>\<close>
  "window_no_rt =
     replicate 10 \<lparr>doc_timestamp = t0, doc_level = Value ''ERROR'', doc_service = Value ''auth'',
                   doc_response_time = Absent, doc_message = Value ''ok''\<rparr>"
definition window_null_rt :: dataframe where
  \<comment> \<open>twenty documents whose \<open>response_time\<close> is null\<close>
  "window_null_rt =
     replicate 20 \<lparr>doc_timestamp = t0, doc_level = Value ''ERROR'', doc_service = Value ''auth'',
                   doc_response_time = Null, doc_message = Value ''ok''\<rparr>"

text \<open>
  The numerics of a column whose sums are exact, as they are in binary64 when the values
  are integers and every sum of them, and of the squares of their distances to the mean,
  is an integer below \<open>2 ^ 53\<close>, in whatever order it is added: the mean is the sum divided
  by the count; \<open>Series.std()\<close> is the sample standard deviation, the root of the sum of
  the squares divided by the count less one, and NaN below two values; \<open>round(x, 2)\<close> of
  numpy multiplies by 100, rounds to the integer and divides by 100. The sample windows
  are such columns.
\<close>

definition exact_sums :: numerics where
  "exact_sums =
     \<lparr>series_mean = (\<lambda>xs. fl (real_of_int (sum_list xs) / real (length xs))),
      series_std = (\<lambda>xs.
        if length xs < 2 then None
        else let m = fl (real_of_int (sum_list xs) / real (length xs))
             in Some (fl (sqrt (fl (sum_list (map (\<lambda>x. (real_of_int x - m)\<^sup>2) xs)
                                      / real (length xs - 1)))))),
      np_round2 = (\<lambda>x. fl (of_int (rhe (fl (x * 100))) / 100))\<rparr>"

definition zero_stats :: "datetime \<Rightarrow> stats" where
  \<comment> \<open>the empty result of the specification: zero and empty counts, no mean\<close>
  "zero_stats now =
     \<lparr>total_logs = 0, log_levels = Map.empty, services = Map.empty, avg_response_time = None,
      max_response_time = None, min_response_time = None, error_count = 0,
      stats_timestamp = now\<rparr>"

text \<open>A group of a match is well formed for a class: not empty, and all of the class.\<close>

definition group_ok :: "(char \<Rightarrow> bool) \<Rightarrow> string \<Rightarrow> groups \<Rightarrow> bool" where
  "group_ok Q k g = (case g k of None \<Rightarrow> True | Some v \<Rightarrow> v \<noteq> [] \<and> list_all Q v)"


section \<open>The pattern on well-formed lines\<close>

lemmas cls = is_ts_char_def is_digit_def btw_def code_def is_word_def is_space_def is_ip_char_def
  is_dot_def latin1_alnum_def

lemma space_not_word: "is_space c \<Longrightarrow> \<not> is_word c"
  by (auto simp: cls)
lemma space_not_ip: "is_space c \<Longrightarrow> \<not> is_ip_char c"
  by (auto simp: cls)

lemma takeWhile_run:
  "list_all P xs \<Longrightarrow> rest = [] \<or> \<not> P (hd rest) \<Longrightarrow> takeWhile P (xs @ rest) = xs"
proof (induction xs)
  case Nil
  then show ?case by (cases rest) auto
next
  case (Cons x xs)
  then show ?case by simp
qed

lemma plus_greedy:
  assumes "xs \<noteq> []" and "list_all P xs" and "rest = [] \<or> \<not> P (hd rest)"
    and "match_items its rest (capture k xs g) = Some r"
  shows "match_items (Plus P k # its) (xs @ rest) g = Some r"
proof -
  from assms(1) obtain n where n: "length xs = Suc n" by (cases xs) auto
  have "takeWhile P (xs @ rest) = xs" using assms(2,3) by (rule takeWhile_run)
  with n assms(4) show ?thesis by simp
qed

lemma plus_backtrack:
  assumes "xs \<noteq> []" and "list_all P xs" and "P c" and "\<not> P d"
    and "match_items its (d # rest) (capture k xs g) = Some r"
  shows "match_items (Plus P k # Lit c # its) (xs @ c # d # rest) g = Some r"
proof -
  from assms(1) obtain n where n: "length xs = Suc n" by (cases xs) auto
  have "takeWhile P ((xs @ [c]) @ d # rest) = xs @ [c]"
    by (rule takeWhile_run) (use assms(2,3,4) in auto)
  then have tw: "length (takeWhile P (xs @ c # d # rest)) = Suc (Suc n)" using n by simp
  have "c \<noteq> d" using assms(3,4) by auto
  then show ?thesis using n assms(5) by (simp add: tw)
qed

lemma match_well_formed:
  assumes ts: "ts \<noteq> []" "list_all is_ts_char ts"
    and lvl: "lvl \<noteq> []" "list_all is_word lvl"
    and sp1: "sp1 \<noteq> []" "list_all is_space sp1"
    and svc: "svc \<noteq> []" "list_all is_word svc"
    and sp2: "sp2 \<noteq> []" "list_all is_space sp2"
    and uid: "uid \<noteq> []" "list_all is_word uid"
    and ip: "ip \<noteq> []" "list_all is_ip_char ip"
    and sp3: "sp3 \<noteq> []" "list_all is_space sp3"
    and rt: "rt \<noteq> []" "list_all is_digit rt"
    and msg: "msg \<noteq> []" "list_all is_dot msg"
  shows "re_match pattern
           (ts @ '' | '' @ lvl @ sp1 @ ''| '' @ svc @ sp2 @ ''| UserID: '' @ uid @ '' | IP: '' @
            ip @ sp3 @ ''| ResponseTime: '' @ rt @ ''ms | Message: '' @ msg) =
         Some [''timestamp'' \<mapsto> ts, ''level'' \<mapsto> lvl, ''service'' \<mapsto> svc, ''user_id'' \<mapsto> uid,
               ''ip_address'' \<mapsto> ip, ''response_time'' \<mapsto> rt, ''message'' \<mapsto> msg]"
proof -
  let ?g1 = "[''timestamp'' \<mapsto> ts]"
  let ?g2 = "?g1(''level'' \<mapsto> lvl)"
  let ?g3 = "?g2(''service'' \<mapsto> svc)"
  let ?g4 = "?g3(''user_id'' \<mapsto> uid)"
  let ?g5 = "?g4(''ip_address'' \<mapsto> ip)"
  let ?g6 = "?g5(''response_time'' \<mapsto> rt)"
  let ?g7 = "?g6(''message'' \<mapsto> msg)"
  let ?p7 = "[Plus is_dot (Some ''message'')]"
  let ?p6 = "Plus is_digit (Some ''response_time'') # (lits ''ms | Message: '' @ ?p7)"
  let ?p5b = "Plus is_space None # (lits ''| ResponseTime: '' @ ?p6)"
  let ?p5 = "Plus is_ip_char (Some ''ip_address'') # ?p5b"
  let ?p4 = "Plus is_word (Some ''user_id'') # (lits '' | IP: '' @ ?p5)"
  let ?p3b = "Plus is_space None # (lits ''| UserID: '' @ ?p4)"
  let ?p3 = "Plus is_word (Some ''service'') # ?p3b"
  let ?p2b = "Plus is_space None # (lits ''| '' @ ?p3)"
  let ?p2 = "Plus is_word (Some ''level'') # ?p2b"
  let ?p1 = "Plus is_ts_char (Some ''timestamp'') # Lit CHR '' '' # (lits ''| '' @ ?p2)"
  let ?s6 = "rt @ (''ms | Message: '' @ msg)"
  let ?s5b = "sp3 @ (''| ResponseTime: '' @ ?s6)"
  let ?s5 = "ip @ ?s5b"
  let ?s4 = "uid @ ('' | IP: '' @ ?s5)"
  let ?s3b = "sp2 @ (''| UserID: '' @ ?s4)"
  let ?s3 = "svc @ ?s3b"
  let ?s2b = "sp1 @ (''| '' @ ?s3)"
  let ?s2 = "lvl @ ?s2b"
  let ?s1 = "ts @ CHR '' '' # CHR ''|'' # (CHR '' '' # ?s2)"
  have h7: "match_items ?p7 (msg @ []) ?g6 = Some ?g7"
    by (rule plus_greedy) (use msg in simp_all)
  have h6: "match_items ?p6 ?s6 ?g5 = Some ?g7"
    by (rule plus_greedy) (use rt h7 in \<open>simp_all add: lits_def cls del: match_items.simps(3)\<close>)
  have h5b: "match_items ?p5b ?s5b ?g5 = Some ?g7"
    by (rule plus_greedy) (use sp3 h6 in \<open>simp_all add: lits_def cls del: match_items.simps(3)\<close>)
  have "\<not> is_ip_char (hd sp3)" using sp3 by (cases sp3) (auto simp: space_not_ip)
  then have h5: "match_items ?p5 ?s5 ?g4 = Some ?g7"
    by - (rule plus_greedy, use ip sp3 h5b in \<open>simp_all del: match_items.simps(3)\<close>)
  have h4: "match_items ?p4 ?s4 ?g3 = Some ?g7"
    by (rule plus_greedy) (use uid h5 in \<open>simp_all add: lits_def cls del: match_items.simps(3)\<close>)
  have h3b: "match_items ?p3b ?s3b ?g3 = Some ?g7"
    by (rule plus_greedy) (use sp2 h4 in \<open>simp_all add: lits_def cls del: match_items.simps(3)\<close>)
  have "\<not> is_word (hd sp2)" using sp2 by (cases sp2) (auto simp: space_not_word)
  then have h3: "match_items ?p3 ?s3 ?g2 = Some ?g7"
    by - (rule plus_greedy, use svc sp2 h3b in \<open>simp_all del: match_items.simps(3)\<close>)
  have h2b: "match_items ?p2b ?s2b ?g2 = Some ?g7"
    by (rule plus_greedy) (use sp1 h3 in \<open>simp_all add: lits_def cls del: match_items.simps(3)\<close>)
  have "\<not> is_word (hd sp1)" using sp1 by (cases sp1) (auto simp: space_not_word)
  then have h2: "match_items ?p2 ?s2 ?g1 = Some ?g7"
    by - (rule plus_greedy, use lvl sp1 h2b in \<open>simp_all del: match_items.simps(3)\<close>)
  have h1: "match_items ?p1 ?s1 Map.empty = Some ?g7"
    by (rule plus_backtrack) (use ts h2 in \<open>simp_all add: lits_def cls del: match_items.simps(3)\<close>)
  have pat: "pattern = ?p1" by (simp add: pattern_def lits_def)
  have line: "ts @ '' | '' @ lvl @ sp1 @ ''| '' @ svc @ sp2 @ ''| UserID: '' @ uid @ '' | IP: '' @
            ip @ sp3 @ ''| ResponseTime: '' @ rt @ ''ms | Message: '' @ msg = ?s1" by simp
  have "re_match pattern ?s1 = Some ?g7" unfolding re_match_def pat by (rule h1)
  then show ?thesis unfolding line by simp
qed

lemma parse_matched:
  assumes "re_match pattern line =
             Some [''timestamp'' \<mapsto> ts, ''level'' \<mapsto> lvl, ''service'' \<mapsto> svc, ''user_id'' \<mapsto> uid,
                   ''ip_address'' \<mapsto> ip, ''response_time'' \<mapsto> rt, ''message'' \<mapsto> msg]"
  shows "parse_log_line now line =
           (case strptime ts of
              None \<Rightarrow> Inl ValueError
            | Some t \<Rightarrow>
                (case py_int rt of
                   None \<Rightarrow> Inl ValueError
                 | Some n \<Rightarrow>
                     Inr (Some \<lparr>timestamp = t, level = lvl, service = svc, user_id = uid,
                                ip_address = ip, response_time = n, message = msg,
                                ingestion_time = now\<rparr>)))"
  using assms by (simp add: parse_log_line_def)

lemma parse_well_formed:
  assumes "ts \<noteq> []" "list_all is_ts_char ts"
    and "lvl \<noteq> []" "list_all is_word lvl"
    and "sp1 \<noteq> []" "list_all is_space sp1"
    and "svc \<noteq> []" "list_all is_word svc"
    and "sp2 \<noteq> []" "list_all is_space sp2"
    and "uid \<noteq> []" "list_all is_word uid"
    and "ip \<noteq> []" "list_all is_ip_char ip"
    and "sp3 \<noteq> []" "list_all is_space sp3"
    and "rt \<noteq> []" "list_all is_digit rt"
    and "msg \<noteq> []" "list_all is_dot msg"
  shows "parse_log_line now
           (ts @ '' | '' @ lvl @ sp1 @ ''| '' @ svc @ sp2 @ ''| UserID: '' @ uid @ '' | IP: '' @
            ip @ sp3 @ ''| ResponseTime: '' @ rt @ ''ms | Message: '' @ msg) =
           (case strptime ts of
              None \<Rightarrow> Inl ValueError
            | Some t \<Rightarrow>
                (case py_int rt of
                   None \<Rightarrow> Inl ValueError
                 | Some n \<Rightarrow>
                     Inr (Some \<lparr>timestamp = t, level = lvl, service = svc, user_id = uid,
                                ip_address = ip, response_time = n, message = msg,
                                ingestion_time = now\<rparr>)))"
  by (rule parse_matched) (rule match_well_formed [OF assms])


section \<open>What a match captures\<close>


lemma try_lens_Some:
  "try_lens f n = Some r \<Longrightarrow> \<exists>m. 0 < m \<and> m \<le> n \<and> f m = Some r"
proof (induction n)
  case 0
  then show ?case by simp
next
  case (Suc n)
  show ?case
  proof (cases "f (Suc n)")
    case None
    with Suc obtain m where "0 < m" "m \<le> n" "f m = Some r" by auto
    then show ?thesis by (intro exI [of _ m]) simp
  next
    case (Some a)
    with Suc.prems show ?thesis by (intro exI [of _ "Suc n"]) simp
  qed
qed

lemma take_of_run:
  "m \<le> length (takeWhile P s) \<Longrightarrow> list_all P (take m s)"
proof (induction s arbitrary: m)
  case Nil
  then show ?case by simp
next
  case (Cons a s)
  then show ?case by (cases m) (auto split: if_splits)
qed

lemma match_items_group:
  "match_items its s g = Some g' \<Longrightarrow>
   (\<And>P. Plus P (Some k) \<in> set its \<Longrightarrow> (\<forall>c. P c \<longrightarrow> Q c)) \<Longrightarrow>
   group_ok Q k g \<Longrightarrow> group_ok Q k g'"
proof (induction its s g rule: match_items.induct)
  case (1 s g)
  then show ?case by simp
next
  case (2 c its s g)
  then show ?case by (cases s) (auto split: if_splits)
next
  case (3 P k' its s g)
  from 3(2) obtain m where m: "0 < m" "m \<le> length (takeWhile P s)"
    "match_items its (drop m s) (capture k' (take m s) g) = Some g'"
    by (auto dest: try_lens_Some)
  have run: "list_all P (take m s)" using m(2) by (rule take_of_run)
  have "m \<le> length s" using m(2) length_takeWhile_le [of P s] by simp
  with m(1) have ne: "take m s \<noteq> []" by auto
  have "group_ok Q k (capture k' (take m s) g)"
  proof (cases "k' = Some k")
    case True
    then have "\<forall>c. P c \<longrightarrow> Q c" using 3(3) [of P] by simp
    with run have "list_all Q (take m s)" by (auto simp: list_all_iff)
    with ne True show ?thesis by (simp add: group_ok_def)
  next
    case False
    with 3(4) show ?thesis by (cases k') (auto simp: group_ok_def)
  qed
  with 3(1) [of m] m(3) 3(3) show ?case by auto
qed

lemma parsed_level_word:
  assumes "parse_log_line now line = Inr (Some r)"
  shows "level r \<noteq> [] \<and> list_all is_word (level r)"
proof -
  from assms obtain data where data: "re_match pattern line = Some data"
    and lv: "data ''level'' = Some (level r)"
    by (auto simp: parse_log_line_def split: option.splits)
  have "group_ok is_word ''level'' data"
  proof (rule match_items_group)
    show "match_items pattern line Map.empty = Some data" using data by (simp add: re_match_def)
    show "group_ok is_word ''level'' Map.empty" by (simp add: group_ok_def)
    show "\<forall>c. P c \<longrightarrow> is_word c" if "Plus P (Some ''level'') \<in> set pattern" for P
      using that by (auto simp: pattern_def lits_def)
  qed
  with lv show ?thesis by (simp add: group_ok_def)
qed


section \<open>Lines of a file\<close>

lemma rf_lf: "readlines_from cur (CHR 0x0A # cs) = (cur @ [CHR 0x0A]) # readlines_from [] cs"
  by simp
lemma rf_crlf: "readlines_from cur (CHR 0x0D # CHR 0x0A # ds) = (cur @ [CHR 0x0A]) # readlines_from [] ds"
  by simp
lemma rf_cr: "d \<noteq> CHR 0x0A \<Longrightarrow> readlines_from cur (CHR 0x0D # d # ds) = (cur @ [CHR 0x0A]) # readlines_from [] (d # ds)"
  by simp
lemma rf_cr_end: "readlines_from cur [CHR 0x0D] = [cur @ [CHR 0x0A]]"
  by simp
lemma rf_other: "c \<noteq> CHR 0x0A \<Longrightarrow> c \<noteq> CHR 0x0D \<Longrightarrow> readlines_from cur (c # cs) = readlines_from (cur @ [c]) cs"
  by simp
lemma rf_nil: "readlines_from cur [] = (if cur = [] then [] else [cur])"
  by simp
lemmas rf = rf_nil rf_lf rf_crlf rf_cr rf_cr_end rf_other

lemma readlines_from_no_terminator:
  "CHR 0x0A \<notin> set p \<Longrightarrow> CHR 0x0D \<notin> set p \<Longrightarrow>
   readlines_from cur p = (if cur @ p = [] then [] else [cur @ p])"
  by (induction p arbitrary: cur) auto

lemma readlines_from_partial:
  assumes p: "p \<noteq> []" "CHR 0x0A \<notin> set p" "CHR 0x0D \<notin> set p"
  shows "body \<noteq> [] \<Longrightarrow> last body = CHR 0x0A \<or> last body = CHR 0x0D \<Longrightarrow>
   readlines_from cur (body @ p) = readlines_from cur body @ [p]"
proof (induction body arbitrary: cur rule: length_induct)
  case (1 body)
  from 1(2) obtain c cs where body: "body = c # cs" by (cases body) auto
  have IH: "readlines_from cur' (ys @ p) = readlines_from cur' ys @ [p]"
    if "length ys < length body" "ys \<noteq> []" "last ys = CHR 0x0A \<or> last ys = CHR 0x0D" for ys cur'
    using 1(1) that by blast
  obtain d ds where pd: "p = d # ds" "d \<noteq> CHR 0x0A" "d \<noteq> CHR 0x0D"
    using p by (cases p) auto
  have pnt: "readlines_from [] p = [p]"
    using p by (simp add: readlines_from_no_terminator)
  show ?case
  proof (cases cs)
    case Nil
    with body 1(3) have "c = CHR 0x0A \<or> c = CHR 0x0D" by simp
    then show ?thesis
    proof
      assume "c = CHR 0x0A"
      with body Nil pnt show ?thesis by (simp del: readlines_from.simps add: rf)
    next
      assume c: "c = CHR 0x0D"
      have "readlines_from cur (CHR 0x0D # d # ds) = (cur @ [CHR 0x0A]) # readlines_from [] (d # ds)"
        using pd(2) by (rule rf_cr)
      with body Nil pnt c pd(1) show ?thesis by (simp del: readlines_from.simps add: rf_nil rf_cr_end)
    qed
  next
    case (Cons e es)
    have lcs: "last cs = CHR 0x0A \<or> last cs = CHR 0x0D" using 1(3) body Cons by simp
    have cs: "readlines_from cur' (cs @ p) = readlines_from cur' cs @ [p]" for cur'
      using IH [of cs cur'] body Cons lcs by simp
    consider (lf) "c = CHR 0x0A" | (crlf) "c = CHR 0x0D" "e = CHR 0x0A" | (cr) "c = CHR 0x0D" "e \<noteq> CHR 0x0A"
      | (other) "c \<noteq> CHR 0x0A" "c \<noteq> CHR 0x0D" by blast
    then show ?thesis
    proof cases
      case lf
      with body cs show ?thesis by (simp del: readlines_from.simps add: rf_nil rf_lf)
    next
      case crlf
      show ?thesis
      proof (cases es)
        case Nil
        with crlf body Cons pnt show ?thesis by (simp del: readlines_from.simps add: rf_nil rf_crlf)
      next
        case (Cons f fs)
        have "last es = CHR 0x0A \<or> last es = CHR 0x0D" using lcs \<open>cs = e # es\<close> Cons by simp
        then have "readlines_from [] (es @ p) = readlines_from [] es @ [p]"
          using IH [of es "[]"] body \<open>cs = e # es\<close> Cons by simp
        with crlf body \<open>cs = e # es\<close> show ?thesis by (simp del: readlines_from.simps add: rf_nil rf_crlf)
      qed
    next
      case cr
      have "readlines_from cur (CHR 0x0D # e # (es @ p)) = (cur @ [CHR 0x0A]) # readlines_from [] (e # (es @ p))"
        using cr(2) by (rule rf_cr)
      moreover have "readlines_from cur (CHR 0x0D # e # es) = (cur @ [CHR 0x0A]) # readlines_from [] (e # es)"
        using cr(2) by (rule rf_cr)
      ultimately show ?thesis using cr(1) body Cons cs [of "[]"] by (simp del: readlines_from.simps add: rf_nil)
    next
      case other
      then have "readlines_from cur (c # cs @ p) = readlines_from (cur @ [c]) (cs @ p)"
        and "readlines_from cur (c # cs) = readlines_from (cur @ [c]) cs"
        by (rule rf_other)+
      with body cs [of "cur @ [c]"] show ?thesis by (simp del: readlines_from.simps add: rf_nil)
    qed
  qed
qed

lemma readlines_partial:
  "p \<noteq> [] \<Longrightarrow> CHR 0x0A \<notin> set p \<Longrightarrow> CHR 0x0D \<notin> set p \<Longrightarrow>
   body = [] \<or> last body = CHR 0x0A \<or> last body = CHR 0x0D \<Longrightarrow>
   readlines (body @ p) = readlines body @ [p]"
  by (cases "body = []") (auto simp: readlines_def readlines_from_partial readlines_from_no_terminator)


section \<open>Evaluating the samples\<close>

lemmas stp = strptime_def strptime_matches_def rx_Y_def rx_m_def rx_d_def rx_H_def rx_M_def rx_S_def
  rx_f_def rx_ws_def lit_def longest_first_def cls digits_value_def digit_val_def days_in_month_def
  is_leap_def

lemma replicate_3: "replicate 3 c = [c, c, c]"
  by (simp add: numeral_3_eq_3)

lemma strptime_t0: "strptime ''2024-01-15 10:30:45.123'' = Some t0"
  by (simp add: stp t0_def replicate_3)

lemma strptime_month_13: "strptime ''2024-13-45 10:30:45.123'' = None"
  by (simp add: stp)


lemma parse_line_ok: "parse_log_line now0 line_ok = Inr (Some entry_ok)"
  using parse_well_formed [where ts = "''2024-01-15 10:30:45.123''" and lvl = "''INFO''"
      and ?sp1.0 = "'' ''" and svc = "''auth''" and ?sp2.0 = "'' ''" and uid = "''u1''"
      and ip = "''10.0.0.1''" and ?sp3.0 = "'' ''" and rt = "''42''" and msg = "''ok''"
      and now = now0]
  by (simp add: cls strptime_t0 line_ok_def entry_ok_def py_int_def digits_value_def digit_val_def)

lemma parse_line_trace: "parse_log_line now0 line_trace = Inr (Some entry_trace)"
  using parse_well_formed [where ts = "''2024-01-15 10:30:45.123''" and lvl = "''TRACE''"
      and ?sp1.0 = "'' ''" and svc = "''auth''" and ?sp2.0 = "'' ''" and uid = "''u1''"
      and ip = "''10.0.0.1''" and ?sp3.0 = "'' ''" and rt = "''42''" and msg = "''ok''"
      and now = now0]
  by (simp add: cls strptime_t0 line_trace_def entry_trace_def py_int_def digits_value_def
      digit_val_def)

text \<open>
  A level with a letter beyond ASCII is a run of word characters, and a response time
  with leading zeros is converted to the number it denotes.
\<close>

lemma parse_line_latin:
  "parse_log_line now0
     (''2024-01-15 10:30:45.123 | INF'' @ [CHR 0xD6] @
      '' | auth | UserID: u1 | IP: 10.0.0.1 | ResponseTime: 007ms | Message: ok'') =
   Inr (Some \<lparr>timestamp = t0, level = ''INF'' @ [CHR 0xD6], service = ''auth'', user_id = ''u1'',
              ip_address = ''10.0.0.1'', response_time = 7, message = ''ok'',
              ingestion_time = now0\<rparr>)"
  using parse_well_formed [where ts = "''2024-01-15 10:30:45.123''" and lvl = "''INF'' @ [CHR 0xD6]"
      and ?sp1.0 = "'' ''" and svc = "''auth''" and ?sp2.0 = "'' ''" and uid = "''u1''"
      and ip = "''10.0.0.1''" and ?sp3.0 = "'' ''" and rt = "''007''" and msg = "''ok''"
      and now = now0]
  by (simp add: cls strptime_t0 py_int_def digits_value_def digit_val_def)

lemma parse_line_partial: "parse_log_line now0 line_partial = Inr (Some entry_partial)"
  using parse_well_formed [where ts = "''2024-01-15 10:30:45.123''" and lvl = "''ERROR''"
      and ?sp1.0 = "'' ''" and svc = "''db''" and ?sp2.0 = "'' ''" and uid = "''u2''"
      and ip = "''10.0.0.2''" and ?sp3.0 = "'' ''" and rt = "''5000''"
      and msg = "''Database conn''" and now = now0]
  by (simp add: cls strptime_t0 line_partial_def entry_partial_def py_int_def digits_value_def
      digit_val_def)

lemma parse_line_bad_ts: "parse_log_line now0 line_bad_ts = Inl ValueError"
  using parse_well_formed [where ts = "''2024-13-45 10:30:45.123''" and lvl = "''INFO''"
      and ?sp1.0 = "'' ''" and svc = "''auth''" and ?sp2.0 = "'' ''" and uid = "''u1''"
      and ip = "''10.0.0.1''" and ?sp3.0 = "'' ''" and rt = "''42''" and msg = "''ok''"
      and now = now0]
  by (simp add: cls strptime_month_13 line_bad_ts_def)



section \<open>Properties of the parser\<close>




text \<open>
  C4, as the claim states it, fails: the pattern takes any run of word characters as the
  level, and the line below, whose level is TRACE, is parsed into a record.
\<close>

theorem unknown_level_is_accepted:
  "parse_log_line now0 line_trace = Inr (Some entry_trace) \<and>
   level entry_trace \<notin> {''DEBUG'', ''INFO'', ''WARNING'', ''ERROR'', ''CRITICAL''}"
  by (simp add: parse_line_trace) (simp add: entry_trace_def)

text \<open>
  C4, amended. The level of every record that \<open>parse_log_line\<close> returns is a run of word
  characters that is not empty; a line whose level field is not such a run gives no record.
  The word characters are those of \<open>\w\<close>, letters and digits of Unicode and the
  underscore, among the code points below U+0100.
\<close>

theorem parsed_level_is_a_word:
  assumes "parse_log_line now line = Inr (Some r)"
  shows "level r \<noteq> [] \<and> list_all is_word (level r)"
  using assms by (rule parsed_level_word)

theorem parsed_level_is_a_word_witness:
  "parse_log_line now0 line_ok = Inr (Some entry_ok) \<and>
   level entry_ok \<noteq> [] \<and> list_all is_word (level entry_ok)"
  using parsed_level_is_a_word [OF parse_line_ok] parse_line_ok by simp


section \<open>Properties of the ingestion cycle\<close>

lemma strip_line_ok: "strip (line_ok @ [CHR 0x0A]) = line_ok"
  by (simp add: strip_def line_ok_def is_space_def code_def)

lemma strip_line_bad_ts: "strip (line_bad_ts @ [CHR 0x0A]) = line_bad_ts"
  by (simp add: strip_def line_bad_ts_def is_space_def code_def)

lemma strip_line_partial: "strip line_partial = line_partial"
  by (simp add: strip_def line_partial_def is_space_def code_def)

lemma lines_not_empty: "line_ok \<noteq> []" "line_bad_ts \<noteq> []" "line_partial \<noteq> []"
  by (simp_all add: line_ok_def line_bad_ts_def line_partial_def)

lemma read_from_0: "read_from 0 s = Inr s"
  by (cases s) simp_all

lemma read_from_beyond: "size_bytes s < n \<Longrightarrow> read_from n s = Inr []"
proof (induction s arbitrary: n)
  case Nil
  then show ?case by simp
next
  case (Cons c s)
  from Cons.prems have "size_bytes s < n - utf8_len c" and "\<not> n < utf8_len c" and "n \<noteq> 0"
    by (auto simp: size_bytes_def)
  with Cons.IH [of "n - utf8_len c"] show ?case by simp
qed

lemma read_from_size:
  "read_from n s = Inr r \<Longrightarrow> r \<noteq> [] \<Longrightarrow> n + size_bytes r = size_bytes s"
proof (induction s arbitrary: n)
  case Nil
  then show ?case by simp
next
  case (Cons c s)
  show ?case
  proof (cases "n = 0")
    case True
    with Cons.prems show ?thesis by simp
  next
    case False
    with Cons.prems have "\<not> n < utf8_len c" and "read_from (n - utf8_len c) s = Inr r"
      by (auto split: if_splits)
    with Cons.IH [of "n - utf8_len c"] Cons.prems(2) show ?thesis
      by (simp add: size_bytes_def)
  qed
qed

lemma parse_lines_snoc:
  "parse_lines now (ls @ [p]) =
     (case parse_lines now ls of
        Inl e \<Rightarrow> Inl e
      | Inr batch \<Rightarrow>
          if strip p \<noteq> [] then
            (case parse_log_line now (strip p) of
               Inl e \<Rightarrow> Inl e
             | Inr None \<Rightarrow> Inr batch
             | Inr (Some r) \<Rightarrow> Inr (batch @ [r]))
          else Inr batch)"
  by (induction ls) (auto simp: Let_def split: sum.splits option.splits)

lemma readlines_file_ok: "readlines file_ok = [line_ok @ [CHR 0x0A]]"
  by (simp add: readlines_def file_ok_def line_ok_def)

lemma readlines_file_bad: "readlines file_bad = [line_bad_ts @ [CHR 0x0A], line_ok @ [CHR 0x0A]]"
  by (simp add: readlines_def file_bad_def line_ok_def line_bad_ts_def)

lemma readlines_file_partial: "readlines file_partial = [line_ok @ [CHR 0x0A], line_partial]"
  by (simp add: readlines_def file_partial_def line_ok_def line_partial_def)

lemma parse_lines_file_ok: "parse_lines now0 [line_ok @ [CHR 0x0A]] = Inr [entry_ok]"
  by (simp add: strip_line_ok lines_not_empty parse_line_ok)

lemma parse_lines_file_bad:
  "parse_lines now0 [line_bad_ts @ [CHR 0x0A], line_ok @ [CHR 0x0A]] = Inl ValueError"
  by (simp add: strip_line_bad_ts lines_not_empty parse_line_bad_ts)

lemma parse_lines_file_partial:
  "parse_lines now0 [line_ok @ [CHR 0x0A], line_partial] = Inr [entry_ok, entry_partial]"
  by (simp add: strip_line_ok strip_line_partial lines_not_empty parse_line_ok parse_line_partial)

lemma ingest_file_ok_write_fails:
  "ingest_logs now0 (WriteFails 0) (Some file_ok) fresh = (ErrorIngesting StoreError, fresh)"
  by (simp add: ingest_logs_def Let_def fresh_def read_from_0 readlines_file_ok
      parse_lines_file_ok insert_many_def del: parse_lines.simps)

lemma ingest_file_bad:
  "ingest_logs now0 WriteOk (Some file_bad) fresh = (ErrorIngesting ValueError, fresh)"
  by (simp add: ingest_logs_def Let_def fresh_def read_from_0 readlines_file_bad
      parse_lines_file_bad del: parse_lines.simps)

lemma ingest_file_partial:
  "ingest_logs now0 WriteOk (Some file_partial) fresh =
     (Ingested 2,
      \<lparr>last_position = size_bytes file_partial, collection = [entry_ok, entry_partial]\<rparr>)"
  by (simp add: ingest_logs_def Let_def fresh_def read_from_0 readlines_file_partial
      parse_lines_file_partial insert_many_def del: parse_lines.simps)

lemma size_file_ok: "size_bytes file_ok = 101"
  by (simp add: size_bytes_def utf8_len_def code_def file_ok_def line_ok_def)

lemma file_ok_is_short: "size_bytes file_ok < last_position stale"
  by (simp add: size_file_ok stale_def)

text \<open>
  C1. In a cycle whose bulk write fails (\<open>insert_many\<close> raises), \<open>last_position\<close> after the
  cycle is what it was before, so the next cycle seeks to the same offset and reads the
  same bytes again.
\<close>

theorem write_failure_keeps_cursor:
  "fst (ingest_logs now w file self) = ErrorIngesting StoreError \<Longrightarrow>
   last_position (snd (ingest_logs now w file self)) = last_position self"
  by (auto simp: ingest_logs_def Let_def split: option.splits sum.splits if_splits prod.splits)

theorem write_failure_keeps_cursor_witness:
  "fst (ingest_logs now0 (WriteFails 0) (Some file_ok) fresh) = ErrorIngesting StoreError \<and>
   last_position (snd (ingest_logs now0 (WriteFails 0) (Some file_ok) fresh)) = last_position fresh"
  using write_failure_keeps_cursor [of now0 "WriteFails 0" "Some file_ok" fresh]
  by (simp add: ingest_file_ok_write_fails)

text \<open>
  C2. The file below holds a line whose timestamp matches the pattern and that
  \<open>strptime\<close> refuses (month 13), followed by a well-formed line. The ValueError leaves the
  cycle: the well-formed line is not written and the cursor does not move, so every later
  cycle meets the same line again.
\<close>

theorem bad_timestamp_blocks_the_batch:
  "ingest_logs now0 WriteOk (Some file_bad) fresh = (ErrorIngesting ValueError, fresh)"
  by (rule ingest_file_bad)

text \<open>
  C3, as the claim states it, fails: the file below ends with a line that has no
  terminator yet. The cycle parses and writes that partial line, with its message cut
  short, and the cursor moves to the end of the file.
\<close>

theorem partial_line_is_ingested:
  "ingest_logs now0 WriteOk (Some file_partial) fresh =
     (Ingested 2,
      \<lparr>last_position = size_bytes file_partial, collection = [entry_ok, entry_partial]\<rparr>)"
  by (rule ingest_file_partial)

text \<open>
  C3, amended. When the bytes after the cursor are complete lines followed by a partial
  line \<open>p\<close> without terminator, \<open>readlines\<close> returns \<open>p\<close> as the last line of the cycle
  and the loop hands it, stripped, to \<open>parse_log_line\<close> after the complete lines. When
  the parser accepts it and the write succeeds, its record is written after those of the
  complete lines, and the cursor moves to the end of the file, past the bytes of \<open>p\<close>.
\<close>

theorem partial_line_is_parsed_and_counted:
  assumes "read_from (last_position self) content = Inr (body @ p)"
    and "body = [] \<or> last body = CHR 0x0A \<or> last body = CHR 0x0D"
    and "p \<noteq> []" and "CHR 0x0A \<notin> set p" and "CHR 0x0D \<notin> set p"
    and "parse_lines now (readlines body) = Inr batch"
    and "strip p \<noteq> []"
    and "parse_log_line now (strip p) = Inr (Some r)"
  shows "readlines (body @ p) = readlines body @ [p] \<and>
         parse_lines now (readlines (body @ p)) = Inr (batch @ [r]) \<and>
         ingest_logs now WriteOk (Some content) self =
           (Ingested (length batch + 1),
            self\<lparr>collection := collection self @ batch @ [r],
                 last_position := size_bytes content\<rparr>)"
proof -
  have lines: "readlines (body @ p) = readlines body @ [p]"
    using assms(2-5) by (simp add: readlines_partial)
  have parsed: "parse_lines now (readlines (body @ p)) = Inr (batch @ [r])"
    unfolding lines using assms(6-8) by (simp add: parse_lines_snoc)
  have "last_position self + size_bytes (body @ p) = size_bytes content"
    using assms(1,3) by (intro read_from_size) auto
  then have tell: "max (last_position self) (size_bytes content) = size_bytes content"
    by simp
  have ne: "readlines (body @ p) \<noteq> []" by (simp add: lines)
  have "ingest_logs now WriteOk (Some content) self =
           (Ingested (length batch + 1),
            self\<lparr>collection := collection self @ batch @ [r],
                 last_position := size_bytes content\<rparr>)"
    using assms(1) by (simp add: ingest_logs_def Let_def parsed ne tell insert_many_def)
  with lines parsed show ?thesis by simp
qed

theorem partial_line_is_parsed_and_counted_witness:
  "read_from (last_position fresh) file_partial = Inr ((line_ok @ [CHR 0x0A]) @ line_partial) \<and>
   last (line_ok @ [CHR 0x0A]) = CHR 0x0A \<and>
   line_partial \<noteq> [] \<and> CHR 0x0A \<notin> set line_partial \<and> CHR 0x0D \<notin> set line_partial \<and>
   parse_lines now0 (readlines (line_ok @ [CHR 0x0A])) = Inr [entry_ok] \<and>
   strip line_partial \<noteq> [] \<and>
   parse_log_line now0 (strip line_partial) = Inr (Some entry_partial) \<and>
   parse_lines now0 (readlines ((line_ok @ [CHR 0x0A]) @ line_partial)) =
     Inr [entry_ok, entry_partial] \<and>
   ingest_logs now0 WriteOk (Some file_partial) fresh =
     (Ingested 2,
      fresh\<lparr>collection := collection fresh @ [entry_ok, entry_partial],
            last_position := size_bytes file_partial\<rparr>)"
proof -
  have a: "read_from (last_position fresh) file_partial = Inr ((line_ok @ [CHR 0x0A]) @ line_partial)"
    by (simp add: fresh_def file_partial_def read_from_0)
  have b: "line_ok @ [CHR 0x0A] = [] \<or> last (line_ok @ [CHR 0x0A]) = CHR 0x0A \<or>
           last (line_ok @ [CHR 0x0A]) = CHR 0x0D" by simp
  have c: "line_partial \<noteq> []" "CHR 0x0A \<notin> set line_partial" "CHR 0x0D \<notin> set line_partial"
    by (simp_all add: line_partial_def)
  have d: "parse_lines now0 (readlines (line_ok @ [CHR 0x0A])) = Inr [entry_ok]"
    using readlines_file_ok parse_lines_file_ok by (simp add: file_ok_def)
  have e: "strip line_partial \<noteq> []" by (simp add: strip_line_partial lines_not_empty)
  have f: "parse_log_line now0 (strip line_partial) = Inr (Some entry_partial)"
    by (simp add: strip_line_partial parse_line_partial)
  note t = partial_line_is_parsed_and_counted [OF a b c d e f]
  from t have g: "parse_lines now0 (readlines ((line_ok @ [CHR 0x0A]) @ line_partial)) =
      Inr ([entry_ok] @ [entry_partial])" by blast
  from t have h: "ingest_logs now0 WriteOk (Some file_partial) fresh =
      (Ingested (length [entry_ok] + 1),
       fresh\<lparr>collection := collection fresh @ [entry_ok] @ [entry_partial],
             last_position := size_bytes file_partial\<rparr>)" by blast
  from a c d e f g h show ?thesis by simp
qed

text \<open>
  C5, as the claim states it, fails: the file below is shorter than the stored offset and
  holds a well-formed line. The cycle reads nothing, the cursor stays at 500 and the line
  is not ingested.
\<close>

theorem shrunk_file_is_not_read:
  "ingest_logs now0 WriteOk (Some file_ok) stale = (Quiet, stale) \<and>
   last_position stale = 500 \<and> collection stale = []"
  using file_ok_is_short
  by (simp add: ingest_logs_def read_from_beyond readlines_def max_def) (simp add: stale_def)

text \<open>
  C5, amended. When the file is shorter than the stored offset, the cycle reads nothing,
  writes nothing and leaves the cursor where it was: there is no detection of rotation.
\<close>

theorem shrunk_file_keeps_cursor:
  "size_bytes content < last_position self \<Longrightarrow>
   ingest_logs now w (Some content) self = (Quiet, self)"
  by (simp add: ingest_logs_def read_from_beyond readlines_def max_def)

theorem shrunk_file_keeps_cursor_witness:
  "size_bytes file_ok < last_position stale \<and>
   ingest_logs now0 (WriteFails 0) (Some file_ok) stale = (Quiet, stale)"
  using shrunk_file_keeps_cursor [OF file_ok_is_short, of now0 "WriteFails 0"] file_ok_is_short
  by simp


section \<open>Rounding to binary64\<close>

lemma rhe_near: "of_int z - 1 / 2 < y \<Longrightarrow> y < of_int z + 1 / 2 \<Longrightarrow> rhe y = z"
proof -
  assume a: "of_int z - 1 / 2 < y" and b: "y < of_int z + 1 / 2"
  show ?thesis
  proof (cases "of_int z \<le> y")
    case True
    then have "\<lfloor>y\<rfloor> = z" using b by (intro floor_unique) auto
    with b show ?thesis by (simp add: rhe_def Let_def)
  next
    case False
    then have "\<lfloor>y\<rfloor> = z - 1" using a by (intro floor_unique) auto
    with a False show ?thesis by (simp add: rhe_def Let_def)
  qed
qed

lemma rhe_of_int: "rhe (of_int z) = z"
  by (rule rhe_near) simp_all

lemma rhe_tie_even: "even z \<Longrightarrow> y = of_int z + 1 / 2 \<Longrightarrow> rhe y = z"
proof -
  assume e: "even z" and y: "y = of_int z + 1 / 2"
  have "\<lfloor>y\<rfloor> = z" unfolding y by (intro floor_unique) auto
  with e y show ?thesis by (simp add: rhe_def Let_def)
qed

text \<open>
  A number whose magnitude, scaled by \<open>2 ^ m\<close>, lies between \<open>2 ^ 52\<close> and \<open>2 ^ 53\<close> is
  rounded at the bit of weight \<open>2 ^ - m\<close>.
\<close>

lemma fl_scaled:
  assumes "2 ^ 52 \<le> \<bar>x\<bar> * 2 ^ m" and "\<bar>x\<bar> * 2 ^ m < 2 ^ 53" and "m \<le> 1074"
  shows "fl x = of_int (rhe (x * 2 ^ m)) / 2 ^ m"
proof -
  have x0: "x \<noteq> 0" using assms(1) by auto
  then have pos: "0 < \<bar>x\<bar>" by simp
  have pm: "(2::real) powr real m = 2 ^ m" by (simp add: powr_realpow)
  have p: "(2::real) powr real_of_int (52 - int m) = 2 ^ 52 / 2 ^ m"
  proof -
    have "(2::real) powr real_of_int (52 - int m) = 2 powr (52 - real m)" by simp
    also have "\<dots> = 2 powr 52 / 2 powr real m" by (rule powr_diff)
    finally show ?thesis by (simp add: pm)
  qed
  have q: "(2::real) powr (real_of_int (52 - int m) + 1) = 2 ^ 53 / 2 ^ m"
  proof -
    have "(2::real) powr (real_of_int (52 - int m) + 1) = 2 powr (53 - real m)" by simp
    also have "\<dots> = 2 powr 53 / 2 powr real m" by (rule powr_diff)
    finally show ?thesis by (simp add: pm)
  qed
  have lo: "(2::real) ^ 52 / 2 ^ m \<le> \<bar>x\<bar>"
    using assms(1) by (simp add: pos_divide_le_eq)
  have hi: "\<bar>x\<bar> < (2::real) ^ 53 / 2 ^ m"
    using assms(2) by (simp add: pos_less_divide_eq)
  have fl_log: "\<lfloor>log 2 \<bar>x\<bar>\<rfloor> = 52 - int m"
  proof -
    have "2 powr real_of_int (52 - int m) \<le> \<bar>x\<bar> \<and> \<bar>x\<bar> < 2 powr (real_of_int (52 - int m) + 1)"
      unfolding p q using lo hi by blast
    then show ?thesis using floor_log_eq_powr_iff [of "\<bar>x\<bar>" 2 "52 - int m"] pos by simp
  qed
  have e: "max (52 - int m - 52) (- 1074) = - int m" using assms(3) by simp
  have r: "(2::real) powr real_of_int (- int m) = 1 / 2 ^ m"
  proof -
    have "(2::real) powr real_of_int (- int m) = 2 powr (- real m)" by simp
    also have "\<dots> = inverse (2 powr real m)" by (rule powr_minus)
    finally show ?thesis by (simp add: pm inverse_eq_divide)
  qed
  have "fl x = of_int (rhe (x / 2 powr real_of_int (- int m))) * 2 powr real_of_int (- int m)"
    using x0 by (simp only: fl_def Let_def fl_log e if_False)
  then show ?thesis by (simp only: r) simp
qed

lemma fl_eval:
  assumes "2 ^ 52 \<le> \<bar>x\<bar> * 2 ^ m" and "\<bar>x\<bar> * 2 ^ m < 2 ^ 53" and "m \<le> 1074"
    and "of_int z - 1 / 2 < x * 2 ^ m" and "x * 2 ^ m < of_int z + 1 / 2"
  shows "fl x = of_int z / 2 ^ m"
  using fl_scaled [OF assms(1-3)] rhe_near [OF assms(4,5)] by simp

lemma fl_sqrt:
  assumes "(2 * of_int z - 1)\<^sup>2 < 4 * A * 4 ^ m" and "4 * A * 4 ^ m < (2 * of_int z + 1)\<^sup>2"
    and "2 ^ 52 < z" and "z < 2 ^ 53 - 1" and "m \<le> 1074" and "0 \<le> A"
  shows "fl (sqrt A) = of_int z / 2 ^ m"
proof -
  have s: "sqrt A * 2 ^ m = sqrt (4 * A * 4 ^ m) / 2"
    by (simp add: real_sqrt_mult real_sqrt_power flip: power_mult_distrib)
  have lo: "2 * of_int z - 1 < sqrt (4 * A * 4 ^ m)"
    using assms(1) by (rule real_less_rsqrt)
  have hi: "sqrt (4 * A * 4 ^ m) < 2 * of_int z + 1"
    using assms(2,3) by (intro real_less_lsqrt) auto
  have "2 ^ 52 + 1 \<le> z" "z \<le> 2 ^ 53 - 2" using assms(3,4) by simp_all
  then have "real_of_int (2 ^ 52 + 1) \<le> real_of_int z" "real_of_int z \<le> real_of_int (2 ^ 53 - 2)"
    by (simp_all only: of_int_le_iff)
  then have zr: "2 ^ 52 + 1 \<le> (of_int z :: real)" "(of_int z :: real) \<le> 2 ^ 53 - 2"
    by simp_all
  have nn: "0 \<le> sqrt A" using assms(6) by simp
  show ?thesis
  proof (rule fl_eval)
    show "2 ^ 52 \<le> \<bar>sqrt A\<bar> * 2 ^ m" using lo zr nn by (simp add: s)
    show "\<bar>sqrt A\<bar> * 2 ^ m < 2 ^ 53" using hi zr nn by (simp add: s)
    show "m \<le> 1074" by fact
    show "of_int z - 1 / 2 < sqrt A * 2 ^ m" using lo by (simp add: s)
    show "sqrt A * 2 ^ m < of_int z + 1 / 2" using hi by (simp add: s)
  qed
qed

text \<open>The numbers of the sample windows.\<close>

lemma fl_1: "fl 1 = 1"
  using fl_eval [of 1 52 4503599627370496] by simp

lemma fl_100: "fl 100 = 100"
  using fl_eval [of 100 46 7036874417766400] by simp

lemma fl_590: "fl 590 = 590"
  using fl_eval [of 590 43 5189694883102720] by simp

lemma fl_5000: "fl 5000 = 5000"
  using fl_eval [of 5000 40 5497558138880000] by simp

lemma fl_10000: "fl 10000 = 10000"
  using fl_eval [of 10000 39 5497558138880000] by simp

lemma fl_500000: "fl 500000 = 500000"
  using fl_eval [of 500000 34 8589934592000000] by simp

lemma fl_2401000: "fl 2401000 = 2401000"
  using fl_eval [of 2401000 31 5156108238848000] by simp

lemma fl_fifth: "fl (1 / 5) = 3602879701896397 / 18014398509481984"
  using fl_eval [of "1 / 5" 55 7205759403792794] by simp

lemma fl_20: "fl (3602879701896397 / 18014398509481984 * 100) = 20"
  using fl_eval [of "3602879701896397 / 18014398509481984 * 100" 48 5629499534213120] by simp

lemma fl_2000_100: "fl (2000 / 100) = 20"
  using fl_eval [of "2000 / 100" 48 5629499534213120] by simp

lemma fl_5_32: "fl (5 / 32) = 5 / 32"
  using fl_eval [of "5 / 32" 55 5629499534213120] by simp

lemma fl_125_8: "fl (5 / 32 * 100) = 125 / 8"
  using fl_eval [of "5 / 32 * 100" 49 8796093022208000] by simp

lemma fl_1562: "fl (1562 / 100) = 8793278272440893 / 562949953421312"
  using fl_eval [of "1562 / 100" 49 8793278272440893] by simp

lemma fl_sqrt_2401000: "fl (sqrt 2401000) = 3407421836459187 / 2199023255552"
  using fl_sqrt [of 6814843672918374 2401000 42] by simp

lemma fl_twice_std: "fl (2 * (3407421836459187 / 2199023255552)) = 3407421836459187 / 1099511627776"
  using fl_eval [of "2 * (3407421836459187 / 2199023255552)" 41 6814843672918374] by simp

lemma fl_threshold: "fl (590 + 3407421836459187 / 1099511627776) = 4056133696847027 / 1099511627776"
  using fl_eval [of "590 + 3407421836459187 / 1099511627776" 41 8112267393694054] by simp

lemma fl_threshold_100:
  "fl (4056133696847027 / 1099511627776 * 100) = 792213612665435 / 2147483648"
  using fl_eval [of "4056133696847027 / 1099511627776 * 100" 34 6337708901323480] by simp

lemma rhe_threshold_100: "rhe (792213612665435 / 2147483648) = 368903"
  by (rule rhe_near) simp_all

lemma fl_368903: "fl (368903 / 100) = 8112262760428995 / 2199023255552"
  using fl_eval [of "368903 / 100" 41 8112262760428995] by simp

lemma fl_0: "fl 0 = 0"
  by (simp add: fl_def)

lemma fl_49_160: "fl (49 / 160) = 2758454771764429 / 9007199254740992"
  using fl_eval [of "49 / 160" 54 5516909543528858] by simp

lemma fl_49_160_100:
  "fl (2758454771764429 / 9007199254740992 * 100) = 8620171161763841 / 281474976710656"
  using fl_eval [of "2758454771764429 / 9007199254740992 * 100" 48 8620171161763841] by simp

lemma py_round2_20: "py_round2 20 = 20"
proof -
  have "rhe (20 * 100) = 2000" using rhe_of_int [of 2000] by simp
  then show ?thesis by (simp only: py_round2_def of_int_numeral fl_2000_100)
qed

lemma py_round2_100: "py_round2 100 = 100"
proof -
  have "rhe (100 * 100) = 10000" using rhe_of_int [of 10000] by simp
  moreover have "(10000::real) / 100 = 100" by simp
  ultimately show ?thesis by (simp only: py_round2_def of_int_numeral fl_100)
qed

lemma py_round2_tie: "py_round2 (125 / 8) = 8793278272440893 / 562949953421312"
proof -
  have "rhe (125 / 8 * 100) = 1562" using rhe_tie_even [of 1562 "125 / 8 * 100"] by simp
  then show ?thesis by (simp only: py_round2_def of_int_numeral fl_1562)
qed

text \<open>
  With 49 of 160 the quotient and the product both round, and the rate falls on the upper
  side of 30.625: the rounding to two decimals gives 30.63.
\<close>

lemma rate_49_of_160: "py_round2 (fl (fl (49 / 160) * 100)) = fl (3063 / 100)"
proof -
  have "rhe (8620171161763841 / 281474976710656 * 100) = 3063" by (rule rhe_near) simp_all
  then show ?thesis
    by (simp only: py_round2_def fl_49_160 fl_49_160_100 of_int_numeral)
qed


section \<open>Properties of the analytics script\<close>

lemma response_time_rule_cases:
  "response_time_rule num df = [] \<or>
   (\<exists>c th av. response_time_rule num df = [HighResponseTime c th av])"
  by (simp add: response_time_rule_def Let_def split: option.splits)

lemma error_rate_rule_cases:
  "error_rate_rule df = [] \<or> (\<exists>r c. error_rate_rule df = [HighErrorRate r c])"
  by (simp add: error_rate_rule_def)

text \<open>
  C10. Whatever the query returns, \<open>detect_anomalies\<close> returns at most two entries: at most
  one of type High Response Time and at most one of type High Error Rate, however many
  rows violate either rule.
\<close>

theorem detect_anomalies_at_most_one_of_each:
  "length (detect_anomalies num found) \<le> 2 \<and>
   length (filter (\<lambda>a. anomaly_type a = ''High Response Time'') (detect_anomalies num found)) \<le> 1 \<and>
   length (filter (\<lambda>a. anomaly_type a = ''High Error Rate'') (detect_anomalies num found)) \<le> 1"
proof -
  let ?df = "get_logs_dataframe found"
  from response_time_rule_cases [of num ?df] error_rate_rule_cases [of ?df]
  show ?thesis
    by (auto simp: detect_anomalies_def Let_def)
qed

text \<open>
  C9, as the claim states it, fails: on an empty window \<open>calculate_statistics\<close> does not
  return the statistics with zero counts.
\<close>

theorem empty_window_has_no_zero_counts:
  "calculate_statistics exact_sums now0 (Some []) \<noteq> Some (zero_stats now0)"
  by (simp add: calculate_statistics_def get_logs_dataframe_def)

text \<open>
  C9, amended. When no document matches the window, or when the query fails,
  \<open>calculate_statistics\<close> returns \<open>None\<close>: no counts and no mean. It raises nothing.
\<close>

theorem calculate_statistics_empty_is_None:
  "calculate_statistics num now (Some []) = None \<and> calculate_statistics num now None = None"
  by (simp add: calculate_statistics_def get_logs_dataframe_def)

subsection \<open>The two rules\<close>

lemma column_append: "column f (xs @ ys) = column f xs @ column f ys"
  by (simp add: column_def)

lemma column_replicate:
  "column f (replicate n d) = (case f d of Value v \<Rightarrow> replicate n v | _ \<Rightarrow> [])"
  by (induction n) (auto simp: column_def split: field.splits)

lemma column_single: "column f [d] = (case f d of Value v \<Rightarrow> [v] | _ \<Rightarrow> [])"
  by (simp add: column_def split: field.splits)

lemma has_column_replicate: "has_column f (replicate n d) = (0 < n \<and> f d \<noteq> Absent)"
  by (induction n) (auto simp: has_column_def)

lemma has_column_append: "has_column f (xs @ ys) = (has_column f xs \<or> has_column f ys)"
  by (simp add: has_column_def)

lemma detect_split:
  assumes "10 \<le> length df" and "has_column doc_response_time df"
  shows "detect_anomalies num (Some df) = response_time_rule num df @ error_rate_rule df"
  using assms by (auto simp: detect_anomalies_def get_logs_dataframe_def)

lemma has_type_response_time_rule:
  "filter (\<lambda>a. anomaly_type a = ''High Response Time'') (response_time_rule num df) =
     response_time_rule num df"
  "filter (\<lambda>a. anomaly_type a = ''High Error Rate'') (response_time_rule num df) = []"
  using response_time_rule_cases [of num df] by auto

lemma has_type_error_rate_rule:
  "filter (\<lambda>a. anomaly_type a = ''High Error Rate'') (error_rate_rule df) = error_rate_rule df"
  "filter (\<lambda>a. anomaly_type a = ''High Response Time'') (error_rate_rule df) = []"
  using error_rate_rule_cases [of df] by auto

lemma no_level_no_error_rows: "\<not> has_column doc_level df \<Longrightarrow> error_rows df = []"
  by (induction df) (auto simp: has_column_def error_rows_def)

lemma error_rate_rule_eq:
  "error_rate_rule df =
     (if 15 < error_rate df
      then [HighErrorRate (py_round2 (error_rate df)) (length (error_rows df))] else [])"
proof (cases "has_column doc_level df")
  case True
  then show ?thesis by (simp add: error_rate_rule_def)
next
  case False
  then have "error_rate df = 0"
    by (simp add: error_rate_def no_level_no_error_rows fl_0)
  with False show ?thesis by (simp add: error_rate_rule_def)
qed

lemma detect_error_rate:
  assumes "10 \<le> length df" and "has_column doc_response_time df"
  shows "filter (\<lambda>a. anomaly_type a = ''High Error Rate'') (detect_anomalies num (Some df)) =
         (if 15 < error_rate df
          then [HighErrorRate (py_round2 (error_rate df)) (length (error_rows df))] else [])"
  by (simp add: detect_split [OF assms] has_type_response_time_rule has_type_error_rate_rule
      flip: error_rate_rule_eq)

text \<open>The numerics of the samples.\<close>

lemma mean_exact:
  "series_mean exact_sums xs = fl (real_of_int (sum_list xs) / real (length xs))"
  by (simp add: exact_sums_def)

lemma std_exact:
  "series_std exact_sums xs =
     (if length xs < 2 then None
      else Some (fl (sqrt (fl (sum_list (map (\<lambda>x. (real_of_int x -
                  fl (real_of_int (sum_list xs) / real (length xs)))\<^sup>2) xs)
                  / real (length xs - 1))))))"
  by (simp add: exact_sums_def Let_def)

lemma round_exact: "np_round2 exact_sums x = fl (of_int (rhe (fl (x * 100))) / 100)"
  by (simp add: exact_sums_def)

lemma rts_window_slow: "column doc_response_time window_slow = replicate 9 100 @ [5000]"
  by (simp add: window_slow_def column_append column_replicate column_single mk_doc_def)

lemma quotient_window_slow:
  "real_of_int (sum_list (replicate 9 100 @ [5000])) / real (length (replicate 9 100 @ [5000::int]))
     = 590"
  by (simp add: sum_list_replicate)

lemma mean_window_slow: "series_mean exact_sums (replicate 9 100 @ [5000]) = 590"
  by (simp only: mean_exact quotient_window_slow fl_590)

lemma std_window_slow:
  "series_std exact_sums (replicate 9 100 @ [5000]) = Some (3407421836459187 / 2199023255552)"
proof -
  have b: "sum_list (map (\<lambda>x. (real_of_int x - 590)\<^sup>2) (replicate 9 100 @ [5000]))
             / real (length (replicate 9 100 @ [5000::int]) - 1) = 2401000"
    by (simp add: sum_list_replicate)
  have c: "\<not> length (replicate 9 100 @ [5000::int]) < 2" by simp
  show ?thesis
    by (simp only: std_exact quotient_window_slow fl_590 b c if_False fl_2401000 fl_sqrt_2401000)
qed

lemma threshold_window_slow:
  "threshold_of exact_sums (replicate 9 100 @ [5000]) = Some (4056133696847027 / 1099511627776)"
  by (simp only: threshold_of_def std_window_slow mean_window_slow option.case fl_twice_std
      fl_threshold)

lemma slow_window_slow: "slow_requests exact_sums (replicate 9 100 @ [5000]) = [5000]"
  by (simp add: slow_requests_def threshold_window_slow fl_100 fl_5000)

lemma mean_slowest: "series_mean exact_sums [5000] = 5000"
proof -
  have "real_of_int (sum_list [5000]) / real (length [5000::int]) = 5000" by simp
  then show ?thesis by (simp only: mean_exact fl_5000)
qed

lemma round_threshold:
  "np_round2 exact_sums (4056133696847027 / 1099511627776) = 8112262760428995 / 2199023255552"
  by (simp only: round_exact fl_threshold_100 rhe_threshold_100 of_int_numeral fl_368903)

lemma round_5000: "np_round2 exact_sums 5000 = 5000"
proof -
  have a: "(5000::real) * 100 = 500000" by simp
  have b: "rhe 500000 = 500000" using rhe_of_int [of 500000] by simp
  have c: "(500000::real) / 100 = 5000" by simp
  show ?thesis by (simp only: round_exact a fl_500000 b of_int_numeral c fl_5000)
qed

text \<open>
  The mean of 39 values of 2048 and one of 2051 is 2048.075, which is no binary64 number:
  the quotient rounds below it, and the mean is reported as 2048.07.
\<close>

lemma fl_mean_tie: "fl (81923 / 40) = 2251882277057331 / 1099511627776"
  using fl_eval [of "81923 / 40" 41 4503764554114662] by simp

lemma fl_mean_tie_100:
  "fl (2251882277057331 / 1099511627776 * 100) = 7037132115804159 / 34359738368"
  using fl_eval [of "2251882277057331 / 1099511627776 * 100" 35 7037132115804159] by simp

lemma rhe_mean_tie: "rhe (7037132115804159 / 34359738368) = 204807"
  by (rule rhe_near) simp_all

lemma mean_at_a_tie:
  "np_round2 exact_sums (series_mean exact_sums (replicate 39 2048 @ [2051])) = fl (204807 / 100)"
proof -
  have "real_of_int (sum_list (replicate 39 2048 @ [2051])) /
        real (length (replicate 39 2048 @ [2051::int])) = 81923 / 40"
    by (simp add: sum_list_replicate)
  then show ?thesis
    by (simp only: mean_exact round_exact fl_mean_tie fl_mean_tie_100 rhe_mean_tie of_int_numeral)
qed

lemma response_time_rule_window_slow:
  "response_time_rule exact_sums window_slow =
     [HighResponseTime 1 (8112262760428995 / 2199023255552) 5000]"
  by (simp add: response_time_rule_def Let_def rts_window_slow threshold_window_slow
      slow_window_slow round_threshold mean_slowest round_5000)

lemma error_rate_rule_window_slow: "error_rate_rule window_slow = []"
  by (simp add: error_rate_rule_def error_rate_def error_rows_def window_slow_def
      mk_doc_def fl_0)

lemma guard_window_slow: "10 \<le> length window_slow" "has_column doc_response_time window_slow"
  by (simp_all add: window_slow_def has_column_append has_column_replicate mk_doc_def)

lemma detect_window_slow:
  "detect_anomalies exact_sums (Some window_slow) =
     [HighResponseTime 1 (8112262760428995 / 2199023255552) 5000]"
  by (simp add: detect_split [OF guard_window_slow] response_time_rule_window_slow
      error_rate_rule_window_slow)

lemma guard_window_errors:
  "10 \<le> length window_errors" "has_column doc_response_time window_errors"
  by (simp_all add: window_errors_def has_column_append has_column_replicate mk_doc_def)

lemma rate_window_errors: "fl (fl (real 4 / real 20) * 100) = 20"
proof -
  have "real 4 / real 20 = 1 / 5" by simp
  then show ?thesis by (simp only: fl_fifth fl_20)
qed

lemma guard_window_tie: "10 \<le> length window_tie" "has_column doc_response_time window_tie"
  by (simp_all add: window_tie_def has_column_append has_column_replicate mk_doc_def)

lemma error_rows_window_tie: "length (error_rows window_tie) = 5" "length window_tie = 32"
  by (simp_all add: error_rows_def window_tie_def mk_doc_def)

lemma error_rate_window_tie: "error_rate window_tie = 125 / 8"
proof -
  have "real 5 / real 32 = 5 / 32" by simp
  then show ?thesis
    by (simp only: error_rate_def error_rows_window_tie fl_5_32 fl_125_8)
qed

lemma error_rate_window_no_rt: "error_rate window_no_rt = 100"
proof -
  have "length (error_rows window_no_rt) = 10" "length window_no_rt = 10"
    by (simp_all add: error_rows_def window_no_rt_def)
  moreover have "real 10 / real 10 = 1" "(1::real) * 100 = 100" by simp_all
  ultimately show ?thesis by (simp only: error_rate_def fl_1 fl_100)
qed

text \<open>
  A column of nulls is a column: the guard of \<open>detect_anomalies\<close> lets the window through,
  and the error rate rule applies.
\<close>

lemma null_column_passes_the_guard:
  "detect_anomalies exact_sums (Some window_null_rt) = [HighErrorRate 100 20]"
proof -
  have g: "10 \<le> length window_null_rt" "has_column doc_response_time window_null_rt"
    by (simp_all add: window_null_rt_def has_column_replicate)
  have r: "response_time_rule exact_sums window_null_rt = []"
    by (simp add: response_time_rule_def window_null_rt_def column_replicate)
  have n: "length (error_rows window_null_rt) = 20" "length window_null_rt = 20"
    by (simp_all add: error_rows_def window_null_rt_def)
  have "real 20 / real 20 = 1" "(1::real) * 100 = 100" by simp_all
  then have e: "error_rate window_null_rt = 100"
    by (simp only: error_rate_def n fl_1 fl_100)
  have l: "has_column doc_level window_null_rt"
    by (simp add: window_null_rt_def has_column_replicate)
  show ?thesis
    by (simp add: detect_split [OF g] r error_rate_rule_def l e py_round2_100 n)
qed

text \<open>
  C8, as the claim states it, fails twice. A window of ten documents, all of level ERROR,
  that has no \<open>response_time\<close> key gives no entry, although the rate is 100. And the entry
  does not report the rate but the rate rounded to two decimals: with 5 ERROR documents
  among 32 the rate is 15.625 and the entry reports the binary64 number next to 15.62.
\<close>

theorem error_rate_entry_is_not_the_rate:
  "10 \<le> length window_no_rt \<and> error_rate window_no_rt = 100 \<and>
   detect_anomalies exact_sums (Some window_no_rt) = [] \<and>
   10 \<le> length window_tie \<and> error_rate window_tie = 125 / 8 \<and>
   filter (\<lambda>a. anomaly_type a = ''High Error Rate'') (detect_anomalies exact_sums (Some window_tie)) =
     [HighErrorRate (8793278272440893 / 562949953421312) 5] \<and>
   (8793278272440893 / 562949953421312 :: real) \<noteq> 125 / 8"
proof -
  have a: "10 \<le> length window_no_rt" by (simp add: window_no_rt_def)
  have b: "detect_anomalies exact_sums (Some window_no_rt) = []"
    by (simp add: detect_anomalies_def get_logs_dataframe_def window_no_rt_def
        has_column_replicate)
  have c: "filter (\<lambda>a. anomaly_type a = ''High Error Rate'')
             (detect_anomalies exact_sums (Some window_tie)) =
           [HighErrorRate (8793278272440893 / 562949953421312) 5]"
    by (simp add: detect_error_rate [OF guard_window_tie] error_rate_window_tie py_round2_tie
        error_rows_window_tie)
  show ?thesis
    using a b c guard_window_tie(1) by (simp add: error_rate_window_no_rt error_rate_window_tie)
qed

text \<open>
  C8, amended. On a window of at least 10 documents that has a \<open>response_time\<close> column,
  \<open>detect_anomalies\<close> reports a High Error Rate entry exactly when the number of documents
  whose level is ERROR (CRITICAL does not count), divided by the number of documents, times
  100, in floating point arithmetic, is strictly above 15; the entry carries that rate
  rounded to two decimals, and that number of documents. With 4 ERROR documents among 20
  the entry has rate 20.0 and count 4.
\<close>

theorem high_error_rate_rule:
  assumes "10 \<le> length df" and "has_column doc_response_time df"
  shows "filter (\<lambda>a. anomaly_type a = ''High Error Rate'') (detect_anomalies num (Some df)) =
         (let errors = length (filter (\<lambda>d. doc_level d = Value ''ERROR'') df);
              rate = fl (fl (real errors / real (length df)) * 100)
          in if 15 < rate then [HighErrorRate (py_round2 rate) errors] else [])"
  by (simp add: detect_error_rate [OF assms] error_rate_def error_rows_def Let_def)

theorem high_error_rate_rule_witness:
  "10 \<le> length window_errors \<and> has_column doc_response_time window_errors \<and>
   filter (\<lambda>a. anomaly_type a = ''High Error Rate'')
     (detect_anomalies exact_sums (Some window_errors)) = [HighErrorRate 20 4]"
proof -
  have c: "length (filter (\<lambda>d. doc_level d = Value ''ERROR'') window_errors) = 4"
    by (simp add: window_errors_def mk_doc_def)
  have d: "length window_errors = 20" by (simp add: window_errors_def)
  have "filter (\<lambda>a. anomaly_type a = ''High Error Rate'')
          (detect_anomalies exact_sums (Some window_errors)) =
        (if 15 < (20::real) then [HighErrorRate (py_round2 20) 4] else [])"
    using high_error_rate_rule [OF guard_window_errors, of exact_sums]
    by (simp only: c d Let_def rate_window_errors)
  with guard_window_errors show ?thesis by (simp add: py_round2_20)
qed

text \<open>
  C7, as the claim states it, fails on its own example: the mean of the ten samples is 590,
  not 600, and the threshold the code computes is above 3689, not about 3540, because
  \<open>Series.std()\<close> is the sample standard deviation (above 1549), not the population one
  (1470).
\<close>

theorem example_mean_is_not_600:
  "series_mean exact_sums (column doc_response_time window_slow) = 590 \<and>
   series_std exact_sums (column doc_response_time window_slow) =
     Some (3407421836459187 / 2199023255552) \<and>
   (1549 :: real) < 3407421836459187 / 2199023255552 \<and>
   threshold_of exact_sums (column doc_response_time window_slow) =
     Some (4056133696847027 / 1099511627776) \<and>
   (3689 :: real) < 4056133696847027 / 1099511627776 \<and>
   detect_anomalies exact_sums (Some window_slow) =
     [HighResponseTime 1 (8112262760428995 / 2199023255552) 5000]"
  by (simp add: rts_window_slow mean_window_slow std_window_slow threshold_window_slow
      detect_window_slow)

text \<open>
  C7, amended. On a window of at least 10 documents that has a \<open>response_time\<close> column, the
  threshold is \<open>Series.mean()\<close> plus twice \<open>Series.std()\<close> of the response times that are
  not null, in floating point arithmetic; there is none when there is no such response
  time or when the deviation is NaN. The response times strictly above the threshold give
  one High Response Time entry with their number, the threshold and their mean, both
  rounded to two decimals, and no entry when there is none. For nine samples of 100 and
  one of 5000 the mean is 590, the deviation is the sample standard deviation (divisor
  \<open>n - 1\<close>), about 1549.52, the threshold rounds to 3689.03, and the entry has count 1.
\<close>

theorem high_response_time_rule:
  assumes "10 \<le> length df" and "has_column doc_response_time df"
  shows "filter (\<lambda>a. anomaly_type a = ''High Response Time'') (detect_anomalies num (Some df)) =
         (let rts = column doc_response_time df in
          case (if rts = [] then None else series_std num rts) of
            None \<Rightarrow> []
          | Some sd \<Rightarrow>
              let th = fl (series_mean num rts + fl (2 * sd));
                  slow = filter (\<lambda>v. th < fl (real_of_int v)) rts
              in if slow = [] then []
                 else [HighResponseTime (length slow) (np_round2 num th)
                         (np_round2 num (series_mean num slow))])"
proof -
  let ?rts = "column doc_response_time df"
  have d: "filter (\<lambda>a. anomaly_type a = ''High Response Time'') (detect_anomalies num (Some df)) =
           response_time_rule num df"
    by (simp add: detect_split [OF assms] has_type_response_time_rule has_type_error_rate_rule)
  show ?thesis
  proof (cases "?rts = []")
    case True
    then show ?thesis by (simp add: d response_time_rule_def)
  next
    case False
    show ?thesis
    proof (cases "series_std num ?rts")
      case None
      with False show ?thesis by (simp add: d response_time_rule_def threshold_of_def)
    next
      case (Some sd)
      with False show ?thesis
        by (simp add: d response_time_rule_def threshold_of_def slow_requests_def Let_def)
    qed
  qed
qed

theorem high_response_time_rule_witness:
  "10 \<le> length window_slow \<and> has_column doc_response_time window_slow \<and>
   filter (\<lambda>a. anomaly_type a = ''High Response Time'')
     (detect_anomalies exact_sums (Some window_slow)) =
     [HighResponseTime 1 (8112262760428995 / 2199023255552) 5000]"
proof -
  have s: "filter (\<lambda>v. 4056133696847027 / 1099511627776 < fl (real_of_int v))
             (replicate 9 100 @ [5000]) = [5000]"
    by (simp add: fl_100 fl_5000)
  have n: "(replicate 9 100 @ [5000::int] = []) = False" by simp
  have "filter (\<lambda>a. anomaly_type a = ''High Response Time'')
          (detect_anomalies exact_sums (Some window_slow)) =
        [HighResponseTime 1 (8112262760428995 / 2199023255552) 5000]"
    unfolding high_response_time_rule [OF guard_window_slow]
    by (simp only: Let_def rts_window_slow n if_False std_window_slow option.case
        mean_window_slow fl_twice_std fl_threshold s)
      (simp add: round_threshold mean_slowest round_5000)
  with guard_window_slow show ?thesis by simp
qed

end
